theory Spec2Isabelle
  imports Main
begin

section \<open>Values\<close>

text \<open>
  A JavaScript value as the service meets it: the result of \<^verbatim>\<open>JSON.parse\<close> on an inbound
  frame, or a field of an outbound message. A number is held as the text that the language's
  number-to-string conversion gives for it: the service never computes with a number of a
  message, it only tests it for truthiness, compares it and interpolates it into a key, and
  two numbers are the same map key exactly when they print alike. An object is the list of
  its own fields.
\<close>

datatype jsval =
    JUndefined
  | JNull
  | JBool bool
  | JNum string
  | JStr string
  | JArr "jsval list"
  | JObj "(string \<times> jsval) list"

type_synonym obj = "(string \<times> jsval) list"

text \<open>Truthiness, as \<^verbatim>\<open>||\<close> and \<^verbatim>\<open>if\<close> test it.\<close>

fun truthy :: "jsval \<Rightarrow> bool" where
  "truthy JUndefined = False"
| "truthy JNull = False"
| "truthy (JBool b) = b"
| "truthy (JNum t) = (t \<noteq> ''0'' \<and> t \<noteq> ''NaN'')"
| "truthy (JStr t) = (t \<noteq> [])"
| "truthy (JArr xs) = True"
| "truthy (JObj fs) = True"

definition js_or :: "jsval \<Rightarrow> jsval \<Rightarrow> jsval" where
  "js_or a b = (if truthy a then a else b)"

text \<open>
  Reading a property \<^verbatim>\<open>v.k\<close>. On \<^verbatim>\<open>null\<close> and \<^verbatim>\<open>undefined\<close> the read throws a
  TypeError (\<open>None\<close>). The keys the service reads (type, data, error, collection, operation,
  level, title, content, action, label) are no built-in property of a string, a number, a
  boolean, an array or a plain object, so there the read gives the own field or
  \<^verbatim>\<open>undefined\<close>.
\<close>

fun read_prop :: "jsval \<Rightarrow> string \<Rightarrow> jsval option" where
  "read_prop JUndefined k = None"
| "read_prop JNull k = None"
| "read_prop (JObj fs) k = Some (case map_of fs k of Some v \<Rightarrow> v | None \<Rightarrow> JUndefined)"
| "read_prop v k = Some JUndefined"

text \<open>The same read where the receiver is known not to be nullish.\<close>

definition field :: "jsval \<Rightarrow> string \<Rightarrow> jsval" where
  "field v k = (case read_prop v k of Some x \<Rightarrow> x | None \<Rightarrow> JUndefined)"

text \<open>
  Conversion to a string, as a template literal and a computed property key do it; \<open>None\<close> is
  the TypeError of the conversion. An object converts through the \<^verbatim>\<open>toString\<close> it
  inherits, unless it has an own field of that name: a field of a parsed frame is never a
  function, so the conversion finds nothing to call that gives a primitive, and throws. An
  array joins the conversions of its elements, \<^verbatim>\<open>null\<close> and \<^verbatim>\<open>undefined\<close> giving the
  empty string.
\<close>

fun join_comma :: "string list \<Rightarrow> string" where
  "join_comma [] = []"
| "join_comma [x] = x"
| "join_comma (x # y # ys) = x @ '','' @ join_comma (y # ys)"

fun all_some :: "'a option list \<Rightarrow> 'a list option" where
  "all_some [] = Some []"
| "all_some (None # xs) = None"
| "all_some (Some v # xs) = map_option ((#) v) (all_some xs)"

fun to_str :: "jsval \<Rightarrow> string option" where
  "to_str JUndefined = Some ''undefined''"
| "to_str JNull = Some ''null''"
| "to_str (JBool b) = Some (if b then ''true'' else ''false'')"
| "to_str (JNum t) = Some t"
| "to_str (JStr t) = Some t"
| "to_str (JArr xs) =
     map_option join_comma
       (all_some (map (\<lambda>x. if x = JUndefined \<or> x = JNull then Some [] else to_str x) xs))"
| "to_str (JObj fs) =
     (if map_of fs ''toString'' \<noteq> None then None else Some ''[object Object]'')"

section \<open>The environment of the service\<close>

text \<open>
  A call on the interface the service offers to the application. The function that
  \<open>subscribe\<close> returns is named by what it closes over: the event key, the array of callbacks
  it was given and the callback.
\<close>

datatype call =
    CallConnect string
  | CallDisconnect
  | CallSend obj
  | CallSubscribe jsval nat
  | CallUnsubscribe jsval nat nat
  | CallWaitForConnection nat

text \<open>
  What the browser, the libraries and the application decide: the identifiers and timestamps
  stamped on outbound envelopes and whether encoding and handing an envelope to the socket
  throws (both indexed by the number of transmissions attempted before), what a subscriber's
  callback does on a payload (the calls it makes on the service, in order, and whether it then
  throws; both may differ from one call of the callback to the next, so they are indexed by
  the number of callback calls made before), the stored access token, the URL class (\<open>url_string u t\<close> is
  \<^verbatim>\<open>new URL(u)\<close>, the token appended as a query parameter when there is one, converted
  back to a string; \<open>None\<close> when the constructor throws), whether the socket constructor
  throws, and the two fallback addresses of the retry.
\<close>

record env =
  uuidv4 :: "nat \<Rightarrow> string"
  now_iso :: "nat \<Rightarrow> string"
  transmit_throws :: "nat \<Rightarrow> obj \<Rightarrow> bool"
  callback_calls :: "nat \<Rightarrow> jsval \<Rightarrow> nat \<Rightarrow> call list"
  callback_throws :: "nat \<Rightarrow> jsval \<Rightarrow> nat \<Rightarrow> bool"
  token :: "string option"
  url_string :: "string \<Rightarrow> string option \<Rightarrow> string option"
  websocket_throws :: "string \<Rightarrow> bool"
  WS_UPDATES_URL :: string
  defaultUrl :: string

section \<open>The service\<close>

datatype promise_state = Pending | Resolved | Rejected

datatype ready = Connecting | Open | Closing | Closed

datatype console_entry = ConsoleWarn string | ConsoleError string

datatype variant = VSuccess | VInfo | VWarning | VError | VInherited string

record snack =
  snack_text :: jsval
  snack_variant :: variant
  autoHideDuration :: "nat option"
  snack_action :: "jsval option"

text \<open>
  The fields of the class, then the objects it holds and what it does to the world around it.
  The map of subscribers takes an event key to an array of callbacks; the arrays live in a
  store and are named by their position in it, since the function that \<open>subscribe\<close> returns
  and a running \<^verbatim>\<open>forEach\<close> both hold on to the array itself (a callback is named by a
  number). Keys are compared as values. Then: the promises \<open>connect\<close> created (a promise is
  named by its position), and for each socket created, by position, its address, its ready
  state and the promise its handlers settle; the sockets the client closed, the envelopes
  handed to the socket, the number of transmissions attempted, the delays of the retry timers
  set and which of them have fired, the number of ping intervals started, the notifications
  shown, the console's warnings and errors, the calls made to subscribers' callbacks, the
  waiters resolved and the number of notification sounds played.
\<close>

record service =
  socket :: "nat option"
  connected :: bool
  reconnectAttempts :: nat
  maxReconnectAttempts :: nat
  reconnectInterval :: nat
  subscribers :: "jsval \<rightharpoonup> nat"
  messageQueue :: "obj list"
  pingInterval :: "nat option"
  connectionPromise :: "nat option"
  connectionResolvers :: "nat list"
  lastUrl :: "string option"
  arrays :: "nat list list"
  promises :: "promise_state list"
  opened :: "string list"
  readyState :: "ready list"
  socket_promise :: "nat list"
  closed_by_client :: "nat list"
  wire :: "obj list"
  transmissions :: nat
  timeouts :: "nat list"
  fired :: "nat list"
  intervals :: nat
  snackbars :: "snack list"
  console :: "console_entry list"
  calls :: "(nat \<times> jsval) list"
  resolved_waiters :: "nat list"
  sounds :: nat

definition constructor :: service where
  "constructor = \<lparr>
     socket = None, connected = False, reconnectAttempts = 0, maxReconnectAttempts = 5,
     reconnectInterval = 5000, subscribers = Map.empty, messageQueue = [],
     pingInterval = None, connectionPromise = None, connectionResolvers = [],
     lastUrl = None, arrays = [], promises = [], opened = [], readyState = [],
     socket_promise = [], closed_by_client = [], wire = [], transmissions = 0,
     timeouts = [], fired = [], intervals = 0, snackbars = [], console = [], calls = [],
     resolved_waiters = [], sounds = 0 \<rparr>"

subsection \<open>Sending\<close>

text \<open>
  The envelope \<^verbatim>\<open>{id, timestamp, ...message}\<close>: the two stamps come first and the
  message's own fields are spread over them, so a message that carries an \<open>id\<close> or a
  \<open>timestamp\<close> of its own keeps it.
\<close>

definition envelope :: "string \<Rightarrow> string \<Rightarrow> obj \<Rightarrow> obj" where
  "envelope u t m =
     [(''id'', case map_of m ''id'' of Some v \<Rightarrow> v | None \<Rightarrow> JStr u),
      (''timestamp'', case map_of m ''timestamp'' of Some v \<Rightarrow> v | None \<Rightarrow> JStr t)]
     @ filter (\<lambda>(k, v). k \<noteq> ''id'' \<and> k \<noteq> ''timestamp'') m"

text \<open>
  The frame of the \<open>n\<close>-th transmission, and \<open>send\<close>. An outbound message is an object, as
  every caller passes one; it is queued as it is and stamped only when it is transmitted. The
  \<^verbatim>\<open>try\<close> block throws when there is no socket (the field is \<^verbatim>\<open>null\<close> after
  \<open>disconnect\<close>) or when encoding or the socket's \<^verbatim>\<open>send\<close> throws; the \<^verbatim>\<open>catch\<close>
  logs and returns \<^verbatim>\<open>false\<close>.
\<close>

definition frame_at :: "env \<Rightarrow> nat \<Rightarrow> obj \<Rightarrow> obj" where
  "frame_at e n m = envelope (uuidv4 e n) (now_iso e n) m"

definition send :: "env \<Rightarrow> obj \<Rightarrow> service \<Rightarrow> service \<times> bool" where
  "send e m s =
     (if \<not> connected s then (s\<lparr>messageQueue := messageQueue s @ [m]\<rparr>, False)
      else
        let n = transmissions s;
            frame = frame_at e n m;
            s1 = s\<lparr>transmissions := Suc n\<rparr>
        in if socket s = None \<or> transmit_throws e n frame
           then (s1\<lparr>console := console s1 @ [ConsoleError ''Error sending WebSocket message:'']\<rparr>,
                 False)
           else (s1\<lparr>wire := wire s1 @ [frame]\<rparr>, True))"

function processMessageQueue :: "env \<Rightarrow> service \<Rightarrow> service" where
  "processMessageQueue e s =
     (if messageQueue s \<noteq> [] \<and> connected s
      then let message = hd (messageQueue s);
               s1 = s\<lparr>messageQueue := tl (messageQueue s)\<rparr>
           in processMessageQueue e (fst (send e message s1))
      else s)"
  by pat_completeness auto
termination
  by (relation "measure (\<lambda>(e, s). length (messageQueue s))")
     (auto simp: send_def Let_def)

subsection \<open>Keepalive\<close>

definition startPingPong :: "service \<Rightarrow> service" where
  "startPingPong s =
     s\<lparr>pingInterval := Some (Suc (intervals s)), intervals := Suc (intervals s)\<rparr>"

definition stopPingPong :: "service \<Rightarrow> service" where
  "stopPingPong s = (if pingInterval s \<noteq> None then s\<lparr>pingInterval := None\<rparr> else s)"

text \<open>The body of the interval's callback.\<close>

definition ping_timer :: "env \<Rightarrow> service \<Rightarrow> service" where
  "ping_timer e s = (if connected s then fst (send e [(''type'', JStr ''ping'')] s) else s)"

subsection \<open>Connecting and reconnecting\<close>

definition backoff_delay :: "nat \<Rightarrow> nat" where
  "backoff_delay attempts = min (1000 * 2 ^ attempts) 30000"

definition handleReconnect :: "service \<Rightarrow> service" where
  "handleReconnect s =
     (if reconnectAttempts s \<ge> maxReconnectAttempts s
      then s\<lparr>console := console s @ [ConsoleError ''Max reconnection attempts reached''],
             snackbars := snackbars s @
               [\<lparr>snack_text = JStr
                   ''Disconnected from real-time updates. Please refresh the page to reconnect.'',
                 snack_variant = VError, autoHideDuration = Some 10000,
                 snack_action = None\<rparr>]\<rparr>
      else
        let s1 = s\<lparr>reconnectAttempts := Suc (reconnectAttempts s)\<rparr>;
            delay = backoff_delay (reconnectAttempts s1)
        in s1\<lparr>timeouts := timeouts s1 @ [delay]\<rparr>)"

definition settle :: "nat \<Rightarrow> promise_state \<Rightarrow> service \<Rightarrow> service" where
  "settle p st s =
     (if p < length (promises s) \<and> promises s ! p = Pending
      then s\<lparr>promises := (promises s)[p := st]\<rparr> else s)"

text \<open>
  \<open>connect\<close> returns the promise it holds when it holds one. Otherwise it creates one and, in
  its executor, opens a socket, which starts in the state \<open>Connecting\<close>; what the executor
  throws is caught, logged and rejects the promise. The handlers it installs on the socket are
  the functions \<open>onopen\<close>, \<open>onmessage\<close>, \<open>onerror\<close> and \<open>onclose\<close> below; they carry the
  promise whose \<^verbatim>\<open>resolve\<close> and \<^verbatim>\<open>reject\<close> they close over.
\<close>

definition connect :: "env \<Rightarrow> string \<Rightarrow> service \<Rightarrow> service \<times> nat" where
  "connect e url s =
     (case connectionPromise s of
        Some p \<Rightarrow> (s, p)
      | None \<Rightarrow>
          let p = length (promises s);
              s0 = s\<lparr>promises := promises s @ [Pending], connectionPromise := Some p\<rparr>;
              tok = (case token e of Some t \<Rightarrow> if t \<noteq> [] then Some t else None
                     | None \<Rightarrow> None);
              failed = settle p Rejected
                (s0\<lparr>console := console s0 @
                   [ConsoleError ''Error creating WebSocket connection:'']\<rparr>)
          in (case url_string e url tok of
                None \<Rightarrow> (failed, p)
              | Some wsUrl \<Rightarrow>
                  if websocket_throws e wsUrl then (failed, p)
                  else (s0\<lparr>socket := Some (length (opened s0)),
                            opened := opened s0 @ [wsUrl],
                            readyState := readyState s0 @ [Connecting],
                            socket_promise := socket_promise s0 @ [p],
                            lastUrl := Some wsUrl\<rparr>, p)))"

definition onopen :: "env \<Rightarrow> nat \<Rightarrow> service \<Rightarrow> service" where
  "onopen e p s =
     (let s1 = s\<lparr>connected := True, reconnectAttempts := 0\<rparr>;
          s2 = startPingPong s1;
          s3 = processMessageQueue e s2;
          s4 = s3\<lparr>resolved_waiters := resolved_waiters s3 @ connectionResolvers s3,
                  connectionResolvers := []\<rparr>
      in settle p Resolved s4)"

definition onerror :: "nat \<Rightarrow> service \<Rightarrow> service" where
  "onerror p s = settle p Rejected (s\<lparr>console := console s @ [ConsoleError ''WebSocket error:'']\<rparr>)"

definition onclose :: "nat \<Rightarrow> service \<Rightarrow> service" where
  "onclose code s =
     (let s1 = stopPingPong (s\<lparr>connected := False\<rparr>)
      in if code \<noteq> 1000 then handleReconnect s1 else s1)"

text \<open>The body of the callback that \<open>handleReconnect\<close> hands to \<^verbatim>\<open>setTimeout\<close>.\<close>

definition retry_url :: "env \<Rightarrow> service \<Rightarrow> string" where
  "retry_url e s =
     (case lastUrl s of
        Some u \<Rightarrow> if u \<noteq> [] then u
                  else if WS_UPDATES_URL e \<noteq> [] then WS_UPDATES_URL e else defaultUrl e
      | None \<Rightarrow> if WS_UPDATES_URL e \<noteq> [] then WS_UPDATES_URL e else defaultUrl e)"

definition retry_timer :: "env \<Rightarrow> service \<Rightarrow> service \<times> nat option" where
  "retry_timer e s =
     (if \<not> connected s
      then (let (s1, p) = connect e (retry_url e s) s in (s1, Some p))
      else (s, None))"

text \<open>
  \<open>disconnect\<close> closes the socket the service holds with the code 1000: a socket that is
  connecting or open starts closing, one that is closing or closed stays as it is.
\<close>

definition close_socket :: "nat \<Rightarrow> ready list \<Rightarrow> ready list" where
  "close_socket k rs =
     (if k < length rs \<and> (rs ! k = Connecting \<or> rs ! k = Open) then rs[k := Closing] else rs)"

definition disconnect :: "service \<Rightarrow> service" where
  "disconnect s =
     (case socket s of
        Some k \<Rightarrow>
          (stopPingPong (s\<lparr>closed_by_client := closed_by_client s @ [k],
                          readyState := close_socket k (readyState s),
                          socket := None, connected := False\<rparr>))\<lparr>connectionPromise := None\<rparr>
      | None \<Rightarrow> s)"

definition waitForConnection :: "nat \<Rightarrow> service \<Rightarrow> service" where
  "waitForConnection w s =
     (if connected s then s\<lparr>resolved_waiters := resolved_waiters s @ [w]\<rparr>
      else s\<lparr>connectionResolvers := connectionResolvers s @ [w]\<rparr>)"

subsection \<open>Subscriptions\<close>

text \<open>The callbacks of an array of the store; an array the store does not have is empty.\<close>

definition arr :: "service \<Rightarrow> nat \<Rightarrow> nat list" where
  "arr s a = (if a < length (arrays s) then arrays s ! a else [])"

text \<open>
  \<open>subscribe\<close> creates the key's array when the map has none, pushes the callback and returns
  the function that undoes it, here the triple it closes over. That function removes the
  first occurrence of the callback from the array it holds, and deletes the key from the map
  when that array is empty then.
\<close>

definition subscribe :: "jsval \<Rightarrow> nat \<Rightarrow> service \<Rightarrow> service \<times> (jsval \<times> nat \<times> nat)" where
  "subscribe event callback s =
     (case subscribers s event of
        None \<Rightarrow>
          let a = length (arrays s)
          in (s\<lparr>subscribers := (subscribers s)(event \<mapsto> a), arrays := arrays s @ [[callback]]\<rparr>,
              (event, a, callback))
      | Some a \<Rightarrow>
          (s\<lparr>arrays := (arrays s)[a := arr s a @ [callback]]\<rparr>, (event, a, callback)))"

definition unsubscribe :: "jsval \<Rightarrow> nat \<Rightarrow> nat \<Rightarrow> service \<Rightarrow> service" where
  "unsubscribe event a callback s =
     (let s1 = (if callback \<in> set (arr s a)
                then s\<lparr>arrays := (arrays s)[a := remove1 callback (arr s a)]\<rparr> else s)
      in if arr s1 a = [] then s1\<lparr>subscribers := (subscribers s1)(event := None)\<rparr> else s1)"

definition subscribeToThreats :: "nat \<Rightarrow> service \<Rightarrow> service \<times> (jsval \<times> nat \<times> nat)" where
  "subscribeToThreats callback s = subscribe (JStr ''threat'') callback s"

definition subscribeToAlerts :: "nat \<Rightarrow> service \<Rightarrow> service \<times> (jsval \<times> nat \<times> nat)" where
  "subscribeToAlerts callback s = subscribe (JStr ''alert'') callback s"

text \<open>\<open>subscribeToSync\<close> throws (\<open>None\<close>) when the collection does not convert to a string.\<close>

definition subscribeToSync ::
  "jsval \<Rightarrow> nat \<Rightarrow> service \<Rightarrow> (service \<times> (jsval \<times> nat \<times> nat)) option" where
  "subscribeToSync collection callback s =
     (case to_str collection of
        None \<Rightarrow> None
      | Some name \<Rightarrow> Some (subscribe (JStr (''sync:'' @ name)) callback s))"

text \<open>A call of the application, or of a callback, on the service.\<close>

fun perform :: "env \<Rightarrow> call \<Rightarrow> service \<Rightarrow> service" where
  "perform e (CallConnect url) s = fst (connect e url s)"
| "perform e CallDisconnect s = disconnect s"
| "perform e (CallSend m) s = fst (send e m s)"
| "perform e (CallSubscribe event callback) s = fst (subscribe event callback s)"
| "perform e (CallUnsubscribe event a callback) s = unsubscribe event a callback s"
| "perform e (CallWaitForConnection w) s = waitForConnection w s"

subsection \<open>Dispatch\<close>

text \<open>A function of the service returns, or throws; either way it leaves a state behind.\<close>

datatype outcome = Returns service | Throws service

text \<open>
  \<^verbatim>\<open>this.subscribers.get(key)\<close> for a key taken from an inbound message. An array or an
  object of a message is a fresh one, which is no key of the map. \<open>callbacks_for\<close> is what
  the array found holds.
\<close>

fun primitive :: "jsval \<Rightarrow> bool" where
  "primitive (JArr xs) = False"
| "primitive (JObj fs) = False"
| "primitive v = True"

definition get_subscribers :: "service \<Rightarrow> jsval \<Rightarrow> nat option" where
  "get_subscribers s key = (if primitive key then subscribers s key else None)"

definition callbacks_for :: "service \<Rightarrow> jsval \<Rightarrow> nat list" where
  "callbacks_for s key = (case get_subscribers s key of Some a \<Rightarrow> arr s a | None \<Rightarrow> [])"

text \<open>
  \<^verbatim>\<open>callbacks.forEach(callback => { try { callback(payload) } catch (error) { console.error(...) } })\<close>.
  \<^verbatim>\<open>forEach\<close> reads the length of the array once and then visits the positions below it
  that the array still has when their turn comes, so it sees what the callbacks do to the
  array meanwhile. Every call of a callback is recorded; the callback makes its calls on the
  service and returns or throws. The text logged in the \<^verbatim>\<open>catch\<close> is a template literal,
  \<open>None\<close> when its conversion throws, which then leaves the loop.
\<close>

fun forEach_loop ::
  "env \<Rightarrow> string option \<Rightarrow> jsval \<Rightarrow> nat \<Rightarrow> nat \<Rightarrow> nat \<Rightarrow> service \<Rightarrow> outcome" where
  "forEach_loop e txt payload a k 0 s = Returns s"
| "forEach_loop e txt payload a k (Suc n) s =
     (if k < length (arr s a) then
        let c = arr s a ! k;
            i = length (calls s);
            s1 = s\<lparr>calls := calls s @ [(c, payload)]\<rparr>;
            s2 = foldl (\<lambda>s' call. perform e call s') s1 (callback_calls e c payload i)
        in if callback_throws e c payload i then
             (case txt of
                None \<Rightarrow> Throws s2
              | Some t \<Rightarrow>
                  forEach_loop e txt payload a (Suc k) n
                    (s2\<lparr>console := console s2 @ [ConsoleError t]\<rparr>))
           else forEach_loop e txt payload a (Suc k) n s2
      else forEach_loop e txt payload a (Suc k) n s)"

text \<open>The loop over \<^verbatim>\<open>this.subscribers.get(key) || []\<close>.\<close>

definition forEach_callback ::
  "env \<Rightarrow> string option \<Rightarrow> jsval \<Rightarrow> nat option \<Rightarrow> service \<Rightarrow> outcome" where
  "forEach_callback e txt payload found s =
     (case found of
        None \<Rightarrow> Returns s
      | Some a \<Rightarrow> forEach_loop e txt payload a 0 (length (arr s a)) s)"

text \<open>
  The built-in handler of notifications; showing the notification and playing the sound are
  taken not to throw. \<^verbatim>\<open>variantMap[level] || 'info'\<close>: the level is converted to a property key (which may
  throw), then come the four own keys of the table, the properties every object inherits
  (their values are functions and objects, all truthy), and the default.
\<close>

definition object_prototype_keys :: "string list" where
  "object_prototype_keys =
     [''constructor'', ''hasOwnProperty'', ''isPrototypeOf'', ''propertyIsEnumerable'',
      ''toLocaleString'', ''toString'', ''valueOf'', ''__proto__'', ''__defineGetter__'',
      ''__defineSetter__'', ''__lookupGetter__'', ''__lookupSetter__'']"

definition variantMap :: "string \<Rightarrow> variant" where
  "variantMap k =
     (if k = ''success'' then VSuccess
      else if k = ''info'' then VInfo
      else if k = ''warning'' then VWarning
      else if k = ''error'' then VError
      else if k \<in> set object_prototype_keys then VInherited k
      else VInfo)"

definition handleNotification :: "jsval \<Rightarrow> service \<Rightarrow> outcome" where
  "handleNotification message s =
     (let d = js_or (field message ''data'') (JObj []);
          level = (if field d ''level'' = JUndefined then JStr ''info'' else field d ''level'');
          title = field d ''title'';
          content = field d ''content'';
          action = field d ''action''
      in case to_str level of
           None \<Rightarrow> Throws s
         | Some k \<Rightarrow>
             let s1 = s\<lparr>snackbars := snackbars s @
                        [\<lparr>snack_text = js_or content title,
                          snack_variant = variantMap k,
                          autoHideDuration =
                            Some (if level = JStr ''error'' then 10000 else 5000),
                          snack_action =
                            (if truthy action
                             then Some (js_or (field action ''label'') (JStr ''View''))
                             else None)\<rparr>]\<rparr>
             in Returns (if level = JStr ''warning'' \<or> level = JStr ''error''
                         then s1\<lparr>sounds := Suc (sounds s1)\<rparr> else s1))"

text \<open>
  \<open>handleSync\<close> throws where a template literal cannot convert its value: the key of the
  collection, before any callback is called, or the warning about the operation, before it is
  logged.
\<close>

definition handleSync :: "env \<Rightarrow> jsval \<Rightarrow> service \<Rightarrow> outcome" where
  "handleSync e message s =
     (let d = js_or (field message ''data'') (JObj []);
          collection = field d ''collection'';
          operation = field d ''operation'';
          data = field d ''data''
      in if operation = JStr ''create'' \<or> operation = JStr ''update''
            \<or> operation = JStr ''delete''
         then (case to_str collection of
                 None \<Rightarrow> Throws s
               | Some name \<Rightarrow>
                   forEach_callback e (Some (''Error in sync subscriber for '' @ name @ '':''))
                     (JObj [(''operation'', operation), (''data'', data)])
                     (get_subscribers s (JStr (''sync:'' @ name))) s)
         else (case to_str operation of
                 None \<Rightarrow> Throws s
               | Some name \<Rightarrow>
                   Returns (s\<lparr>console := console s @
                              [ConsoleWarn (''Unknown sync operation: '' @ name)]\<rparr>)))"

text \<open>
  \<open>handleMessage\<close> throws when the message is \<^verbatim>\<open>null\<close> (reading its type is the first
  thing it does) and when the handler it hands the message to throws.
\<close>

definition handleMessage :: "env \<Rightarrow> jsval \<Rightarrow> service \<Rightarrow> outcome" where
  "handleMessage e message s =
     (case read_prop message ''type'' of
        None \<Rightarrow> Throws s
      | Some ty \<Rightarrow>
          if ty = JStr ''pong'' then Returns s
          else if ty = JStr ''error'' then
            Returns (s\<lparr>console := console s @ [ConsoleError ''WebSocket error:''],
                       snackbars := snackbars s @
                         [\<lparr>snack_text =
                             js_or (field message ''error'') (JStr ''An error occurred''),
                           snack_variant = VError, autoHideDuration = None,
                           snack_action = None\<rparr>]\<rparr>)
          else if ty = JStr ''notification'' then handleNotification message s
          else if ty = JStr ''sync'' then handleSync e message s
          else forEach_callback e
                 (map_option (\<lambda>name. ''Error in WebSocket subscriber for '' @ name @ '':'')
                    (to_str ty))
                 (field message ''data'') (get_subscribers s ty) s)"

text \<open>
  The socket's message handler: \<open>None\<close> is a frame that \<^verbatim>\<open>JSON.parse\<close> rejects. What
  parsing or \<open>handleMessage\<close> throws is caught and logged.
\<close>

definition onmessage :: "env \<Rightarrow> jsval option \<Rightarrow> service \<Rightarrow> service" where
  "onmessage e parsed s =
     (case parsed of
        None \<Rightarrow> s\<lparr>console := console s @ [ConsoleError ''Error parsing WebSocket message:'']\<rparr>
      | Some message \<Rightarrow>
          (case handleMessage e message s of
             Returns s' \<Rightarrow> s'
           | Throws s' \<Rightarrow>
               s'\<lparr>console := console s' @
                    [ConsoleError ''Error parsing WebSocket message:'']\<rparr>))"

section \<open>Executions\<close>

text \<open>
  What happens to the service, one event at a time: the application calls it, a socket it
  created opens, delivers a frame, fails or closes, a retry timer or the ping interval fires.
  A socket opens only while it is connecting and at most once, delivers frames while it is
  open or closing, and closes once; an error comes before the close, and after it the socket
  does not open any more. A retry timer fires once.
\<close>

datatype event =
    App call
  | SocketOpen nat
  | SocketMessage nat "jsval option"
  | SocketError nat
  | SocketClose nat nat
  | RetryFire nat
  | PingFire

definition ready_of :: "service \<Rightarrow> nat \<Rightarrow> ready option" where
  "ready_of s k =
     (if k < length (readyState s) \<and> k < length (socket_promise s)
      then Some (readyState s ! k) else None)"

fun step :: "env \<Rightarrow> event \<Rightarrow> service \<Rightarrow> service option" where
  "step e (App c) s = Some (perform e c s)"
| "step e (SocketOpen k) s =
     (if ready_of s k = Some Connecting
      then Some (onopen e (socket_promise s ! k) (s\<lparr>readyState := (readyState s)[k := Open]\<rparr>))
      else None)"
| "step e (SocketMessage k frame) s =
     (if ready_of s k = Some Open \<or> ready_of s k = Some Closing
      then Some (onmessage e frame s) else None)"
| "step e (SocketError k) s =
     (if ready_of s k \<noteq> None \<and> ready_of s k \<noteq> Some Closed
      then Some (onerror (socket_promise s ! k) (s\<lparr>readyState := (readyState s)[k := Closing]\<rparr>))
      else None)"
| "step e (SocketClose k code) s =
     (if ready_of s k \<noteq> None \<and> ready_of s k \<noteq> Some Closed
      then Some (onclose code (s\<lparr>readyState := (readyState s)[k := Closed]\<rparr>))
      else None)"
| "step e (RetryFire i) s =
     (if i < length (timeouts s) \<and> i \<notin> set (fired s)
      then Some (fst (retry_timer e (s\<lparr>fired := fired s @ [i]\<rparr>))) else None)"
| "step e PingFire s = (if pingInterval s \<noteq> None then Some (ping_timer e s) else None)"

text \<open>A run is a sequence of events, each possible when its turn comes.\<close>

fun run :: "env \<Rightarrow> event list \<Rightarrow> service \<Rightarrow> service option" where
  "run e [] s = Some s"
| "run e (ev # evs) s = (case step e ev s of None \<Rightarrow> None | Some s' \<Rightarrow> run e evs s')"

text \<open>The abnormal closes of a run, and whether a socket opens in it.\<close>

fun abnormal_close :: "event \<Rightarrow> bool" where
  "abnormal_close (SocketClose k code) = (code \<noteq> 1000)"
| "abnormal_close ev = False"

fun is_open :: "event \<Rightarrow> bool" where
  "is_open (SocketOpen k) = True"
| "is_open ev = False"

section \<open>Sample data\<close>

text \<open>
  Whether the \<open>i\<close>-th transmission, of message \<open>m\<close>, throws in \<open>send\<close>.
\<close>

definition thrown :: "env \<Rightarrow> service \<Rightarrow> nat \<times> obj \<Rightarrow> bool" where
  "thrown e s = (\<lambda>(i, m). socket s = None \<or> transmit_throws e i (frame_at e i m))"

text \<open>A sequence of \<open>send\<close> calls, with what each returned.\<close>

fun sends :: "env \<Rightarrow> obj list \<Rightarrow> service \<Rightarrow> service \<times> bool list" where
  "sends e [] s = (s, [])"
| "sends e (m # ms) s =
     (let (s1, r) = send e m s; (s2, rs) = sends e ms s1 in (s2, r # rs))"

text \<open>A stream of inbound frames, each given to the socket's message handler.\<close>

fun receive :: "env \<Rightarrow> jsval option list \<Rightarrow> service \<Rightarrow> service" where
  "receive e [] s = s"
| "receive e (frame # frames) s = receive e frames (onmessage e frame s)"

text \<open>
  An environment where nothing throws and no callback calls the service, and one where the
  first transmission throws.
\<close>

definition plain_env :: env where
  "plain_env = \<lparr>
     uuidv4 = (\<lambda>n. ''uuid-'' @ replicate n (CHR ''i'')),
     now_iso = (\<lambda>n. ''2024-01-01T00:00:0'' @ replicate n (CHR ''0'') @ ''Z''),
     transmit_throws = (\<lambda>n frame. False),
     callback_calls = (\<lambda>c payload i. []),
     callback_throws = (\<lambda>c payload i. False),
     token = Some ''abc'',
     url_string = (\<lambda>u t. Some (u @ (case t of None \<Rightarrow> []
        | Some x \<Rightarrow> (if CHR ''?'' \<in> set u then ''&token='' else ''?token='') @ x))),
     websocket_throws = (\<lambda>u. False),
     WS_UPDATES_URL = ''ws://localhost:8000/ws/updates'',
     defaultUrl = ''ws://localhost:8000/ws/updates'' \<rparr>"

definition first_fails :: env where
  "first_fails = plain_env\<lparr>transmit_throws := (\<lambda>n frame. n = 0)\<rparr>"

definition threat :: "string \<Rightarrow> obj" where
  "threat n = [(''type'', JStr ''threat''), (''data'', JObj [(''id'', JNum n)])]"

text \<open>The service as \<open>onopen\<close> has it when it starts draining two queued messages.\<close>

definition draining :: service where
  "draining = constructor\<lparr>socket := Some 0, connected := True,
     messageQueue := [threat ''1'', threat ''2'']\<rparr>"

text \<open>The service once its first connection has opened.\<close>

definition live :: service where
  "live =
     (case run plain_env [App (CallConnect ''ws://localhost:8000/ws/updates''), SocketOpen 0]
             constructor of
        Some s \<Rightarrow> s
      | None \<Rightarrow> constructor)"

text \<open>
  The open service with seven subscriptions, in this order: callbacks 8 and 9 to threats (the
  array 0), 5 and 6 to the sync of the collection \<open>threats\<close> (the array 1), 4 to the key
  \<open>threats\<close>, 3 to the key \<open>sync\<close> and 7 to the key \<open>error\<close>. Then inbound frames, an
  environment where callback 8 throws on every payload and callback 5 on the payload of a
  sync, and one where these two callbacks first take themselves off their arrays.
\<close>

definition watched :: service where
  "watched =
     foldl (\<lambda>s (key, callback). fst (subscribe key callback s)) live
       [(JStr ''threat'', 8), (JStr ''threat'', 9), (JStr ''sync:threats'', 5),
        (JStr ''sync:threats'', 6), (JStr ''threats'', 4), (JStr ''sync'', 3),
        (JStr ''error'', 7)]"

definition threat_frame :: jsval where
  "threat_frame = JObj [(''type'', JStr ''threat''), (''data'', JObj [(''id'', JNum ''1'')])]"

definition sync_frame :: "jsval \<Rightarrow> jsval \<Rightarrow> jsval" where
  "sync_frame collection operation =
     JObj [(''type'', JStr ''sync''),
           (''data'', JObj [(''collection'', collection), (''operation'', operation),
                            (''data'', JObj [(''id'', JNum ''7'')])])]"

definition error_frame :: jsval where
  "error_frame = JObj [(''type'', JStr ''error''), (''error'', JStr ''quota exceeded'')]"

definition first_throws :: env where
  "first_throws = plain_env\<lparr>callback_throws := (\<lambda>c payload i. c = 8 \<or> c = 5)\<rparr>"

definition leaving :: env where
  "leaving = first_throws\<lparr>callback_calls := (\<lambda>c payload i.
     if c = 8 then [CallUnsubscribe (JStr ''threat'') 0 8]
     else if c = 5 then [CallUnsubscribe (JStr ''sync:threats'') 1 5]
     else [])\<rparr>"

text \<open>
  A run in which five sockets in a row fail to connect: the application connects, and after
  each abnormal close it disconnects, so that the retry timer opens the next socket. Then
  the run that goes on until the sixth socket is connecting.
\<close>

definition five_failures :: "event list" where
  "five_failures =
     [App (CallConnect ''ws://localhost:8000/ws/updates''), SocketError 0, SocketClose 0 1006,
      App CallDisconnect, RetryFire 0, SocketClose 1 1006,
      App CallDisconnect, RetryFire 1, SocketError 2, SocketClose 2 1011,
      App CallDisconnect, RetryFire 2, SocketClose 3 1006,
      App CallDisconnect, RetryFire 3, SocketClose 4 1001]"

definition sixth_connecting :: "event list" where
  "sixth_connecting = five_failures @ [App CallDisconnect, RetryFire 4]"

text \<open>The service with its console wiped, to compare two runs up to what they logged.\<close>

definition quiet :: "service \<Rightarrow> service" where
  "quiet s = s\<lparr>console := []\<rparr>"

definition quiet_outcome :: "outcome \<Rightarrow> outcome" where
  "quiet_outcome r = (case r of Returns s \<Rightarrow> Returns (quiet s) | Throws s \<Rightarrow> Throws (quiet s))"

text \<open>
  A call that leaves the array \<open>a\<close> as long as it is: every call but the function that
  takes a callback off that array.
\<close>

fun leaves :: "nat \<Rightarrow> call \<Rightarrow> bool" where
  "leaves a (CallUnsubscribe event a' callback) = (a' \<noteq> a)"
| "leaves a c = True"

text \<open>
  No callback of the key, called with the payload, ever takes a callback off the key's array.
\<close>

definition steady :: "env \<Rightarrow> service \<Rightarrow> jsval \<Rightarrow> jsval \<Rightarrow> bool" where
  "steady e s key payload =
     (\<forall>a. get_subscribers s key = Some a \<longrightarrow>
        (\<forall>cb \<in> set (arr s a). \<forall>i. \<forall>c \<in> set (callback_calls e cb payload i). leaves a c))"

text \<open>The state an outcome leaves behind.\<close>

fun state_of :: "outcome \<Rightarrow> service" where
  "state_of (Returns s) = s"
| "state_of (Throws s) = s"

text \<open>What the backoff rests on: the counter, its ceiling and the retry timers set.\<close>

definition backoff :: "service \<Rightarrow> nat \<times> nat \<times> nat list" where
  "backoff s = (reconnectAttempts s, maxReconnectAttempts s, timeouts s)"

section \<open>The outbound queue\<close>

declare processMessageQueue.simps [simp del]

lemma pmq_stop: "messageQueue s = [] \<or> \<not> connected s \<Longrightarrow> processMessageQueue e s = s"
  by (subst processMessageQueue.simps) auto

lemma pmq_step:
  "connected s \<Longrightarrow> messageQueue s = m # ms \<Longrightarrow>
   processMessageQueue e s = processMessageQueue e (fst (send e m (s\<lparr>messageQueue := ms\<rparr>)))"
  by (subst processMessageQueue.simps) (simp add: Let_def)

lemmas sample_defs = plain_env_def first_fails_def threat_def draining_def constructor_def
  send_def frame_at_def envelope_def Let_def pmq_step pmq_stop connect_def onopen_def
  startPingPong_def settle_def thrown_def ready_of_def

text \<open>
  The whole effect of a drain: every queued message leaves the queue and is tried once, in
  order; the ones whose transmission does not throw reach the socket, the others leave an
  error on the console.
\<close>

lemma drain:
  "connected s \<Longrightarrow> messageQueue s = q \<Longrightarrow> transmissions s = n \<Longrightarrow>
   processMessageQueue e s =
     s\<lparr>messageQueue := [],
       wire := wire s @ map (\<lambda>(i, m). frame_at e i m)
                 (filter (\<lambda>im. \<not> thrown e s im) (zip [n..<n + length q] q)),
       transmissions := n + length q,
       console := console s @ map (\<lambda>im. ConsoleError ''Error sending WebSocket message:'')
                 (filter (thrown e s) (zip [n..<n + length q] q))\<rparr>"
proof (induction q arbitrary: s n)
  case Nil
  then show ?case by (simp add: pmq_stop)
next
  case (Cons m ms)
  define s' where "s' = fst (send e m (s\<lparr>messageQueue := ms\<rparr>))"
  have c: "connected s'" and q: "messageQueue s' = ms" and t: "transmissions s' = Suc n"
    and k: "socket s' = socket s"
    using Cons.prems by (auto simp: s'_def send_def Let_def)
  have th: "thrown e s' = thrown e s" by (simp add: thrown_def k)
  have z: "zip [n..<n + length (m # ms)] (m # ms) = (n, m) # zip [Suc n..<Suc n + length ms] ms"
  proof -
    have "[n..<n + length (m # ms)] = n # [Suc n..<Suc n + length ms]"
      by (subst upt_conv_Cons) simp_all
    then show ?thesis by simp
  qed
  have "processMessageQueue e s = processMessageQueue e s'"
    using Cons.prems by (simp add: pmq_step s'_def)
  also note Cons.IH [OF c q t]
  finally show ?case
    unfolding z th using Cons.prems
    by (auto simp: s'_def send_def Let_def thrown_def)
qed

text \<open>
  Claim C2, as the code has it. When the transmission of a queued message throws during the
  drain, \<open>send\<close> catches the exception and the drain goes on with the next message: after a
  drain on a connected service the queue is empty, every queued message has been tried once,
  and the socket has received, in queue order, the ones whose transmission did not throw. A
  message whose transmission threw was taken off the queue before and is not put back.
\<close>

theorem drain_after_throw:
  "connected s \<Longrightarrow>
   (let q = messageQueue s; n = transmissions s; s' = processMessageQueue e s;
        tries = zip [n..<n + length q] q
    in messageQueue s' = [] \<and> transmissions s' = n + length q \<and>
       wire s' = wire s @ map (\<lambda>(i, m). frame_at e i m)
                            (filter (\<lambda>im. \<not> thrown e s im) tries))"
  by (simp add: drain [OF _ refl refl] Let_def)

theorem drain_after_throw_witness:
  "connected draining \<and>
   messageQueue (processMessageQueue first_fails draining) = [] \<and>
   transmissions (processMessageQueue first_fails draining) = 2 \<and>
   wire (processMessageQueue first_fails draining) = [frame_at first_fails 1 (threat ''2'')]"
proof -
  have c: "connected draining" by (simp add: draining_def constructor_def)
  have q: "messageQueue draining = [threat ''1'', threat ''2'']"
    and n: "transmissions draining = 0" and w: "wire draining = []"
    and k: "socket draining = Some 0"
    by (simp_all add: draining_def constructor_def)
  have z: "[0..<2] = [0, Suc 0]" by (simp add: upt_conv_Cons)
  show ?thesis
    using c drain_after_throw [OF c, of first_fails]
    by (simp add: Let_def q n w z thrown_def k first_fails_def)
qed

text \<open>
  The claim as the spec words it fails: the first of two queued messages throws, the drain
  does not stop, the second message is transmitted and the first is neither on the socket nor
  in the queue.
\<close>

theorem drain_loses_failed_message:
  "messageQueue (processMessageQueue first_fails draining) = [] \<and>
   transmissions (processMessageQueue first_fails draining) = 2 \<and>
   wire (processMessageQueue first_fails draining) =
     [[(''id'', JStr ''uuid-i''), (''timestamp'', JStr ''2024-01-01T00:00:00Z''),
       (''type'', JStr ''threat''), (''data'', JObj [(''id'', JNum ''2'')])]]"
  by (simp add: sample_defs)

lemma envelope_fields:
  "map_of (envelope u t m) k =
     (if k = ''id'' then Some (case map_of m ''id'' of Some v \<Rightarrow> v | None \<Rightarrow> JStr u)
      else if k = ''timestamp''
        then Some (case map_of m ''timestamp'' of Some v \<Rightarrow> v | None \<Rightarrow> JStr t)
      else map_of m k)"
proof -
  have "k \<noteq> ''id'' \<Longrightarrow> k \<noteq> ''timestamp'' \<Longrightarrow>
        map_of (filter (\<lambda>(k, v). k \<noteq> ''id'' \<and> k \<noteq> ''timestamp'') m) k = map_of m k"
    by (induction m) auto
  then show ?thesis by (simp add: envelope_def)
qed

lemma live_facts:
  "connected live" "socket live = Some 0" "transmissions live = 0" "wire live = []"
  "messageQueue live = []"
  by (simp_all add: live_def sample_defs)

text \<open>
  Claim C4, as the code has it. A \<open>send\<close> on a connected service builds the envelope, which
  has an \<open>id\<close> and a \<open>timestamp\<close> (the message's own when it carries them, a fresh one
  otherwise), and hands it to the socket: when that does not throw, the frame is on the socket
  and \<open>send\<close> returns true. When it throws, the exception is caught and logged, \<open>send\<close>
  returns false and the message is neither transmitted nor queued. A \<open>send\<close> on a service that
  is not connected appends the message to the queue and returns false. So false has two
  meanings for the caller: queued, or failed.
\<close>

theorem send_outcomes:
  "(let n = transmissions s; (s', r) = send e m s in
     (\<not> connected s \<longrightarrow>
        \<not> r \<and> messageQueue s' = messageQueue s @ [m] \<and> wire s' = wire s) \<and>
     (connected s \<and> \<not> thrown e s (n, m) \<longrightarrow>
        r \<and> wire s' = wire s @ [frame_at e n m] \<and> messageQueue s' = messageQueue s) \<and>
     (connected s \<and> thrown e s (n, m) \<longrightarrow>
        \<not> r \<and> wire s' = wire s \<and> messageQueue s' = messageQueue s \<and>
        console s' = console s @ [ConsoleError ''Error sending WebSocket message:'']) \<and>
     map_of (frame_at e n m) ''id'' =
       Some (case map_of m ''id'' of Some v \<Rightarrow> v | None \<Rightarrow> JStr (uuidv4 e n)) \<and>
     map_of (frame_at e n m) ''timestamp'' =
       Some (case map_of m ''timestamp'' of Some v \<Rightarrow> v | None \<Rightarrow> JStr (now_iso e n)))"
  by (simp add: send_def Let_def thrown_def frame_at_def envelope_fields)

theorem send_outcomes_witness:
  "connected live \<and> thrown first_fails live (0, threat ''1'') \<and>
   \<not> thrown plain_env live (0, threat ''1'') \<and>
   \<not> snd (send first_fails (threat ''1'') live) \<and>
   snd (send plain_env (threat ''1'') live) \<and>
   wire (fst (send plain_env (threat ''1'') live)) = [frame_at plain_env 0 (threat ''1'')]"
proof -
  have t: "thrown first_fails live (0, threat ''1'')" "\<not> thrown plain_env live (0, threat ''1'')"
    by (simp_all add: thrown_def live_facts first_fails_def plain_env_def)
  show ?thesis
    using t send_outcomes [of live first_fails "threat ''1''"]
      send_outcomes [of live plain_env "threat ''1''"]
    by (simp add: live_facts Let_def split: prod.splits)
qed

text \<open>
  The claim as the spec words it fails: on a connected service whose transmission throws,
  \<open>send\<close> returns false although nothing was appended to the queue.
\<close>

theorem send_false_without_queueing:
  "connected live \<and> \<not> snd (send first_fails (threat ''1'') live) \<and>
   messageQueue (fst (send first_fails (threat ''1'') live)) = [] \<and>
   wire (fst (send first_fails (threat ''1'') live)) = []"
  by (simp add: live_def sample_defs)

lemma sends_disconnected:
  "\<not> connected s \<Longrightarrow>
   sends e ms s = (s\<lparr>messageQueue := messageQueue s @ ms\<rparr>, replicate (length ms) False)"
proof (induction ms arbitrary: s)
  case Nil
  then show ?case by simp
next
  case (Cons m ms)
  have "send e m s = (s\<lparr>messageQueue := messageQueue s @ [m]\<rparr>, False)"
    using Cons.prems by (simp add: send_def)
  moreover have "\<not> connected (s\<lparr>messageQueue := messageQueue s @ [m]\<rparr>)"
    using Cons.prems by simp
  ultimately show ?case using Cons.IH by simp
qed

lemma connect_keeps:
  "messageQueue (fst (connect e url s)) = messageQueue s"
  "wire (fst (connect e url s)) = wire s"
  "transmissions (fst (connect e url s)) = transmissions s"
  "connected (fst (connect e url s)) = connected s"
  "reconnectAttempts (fst (connect e url s)) = reconnectAttempts s"
  "maxReconnectAttempts (fst (connect e url s)) = maxReconnectAttempts s"
  "timeouts (fst (connect e url s)) = timeouts s"
  "snackbars (fst (connect e url s)) = snackbars s"
  by (simp_all add: connect_def settle_def Let_def split: option.splits)

lemma settle_keeps:
  "messageQueue (settle p st s) = messageQueue s"
  "wire (settle p st s) = wire s"
  "transmissions (settle p st s) = transmissions s"
  "reconnectAttempts (settle p st s) = reconnectAttempts s"
  by (simp_all add: settle_def)

lemma onopen_drains:
  "messageQueue (onopen e p s) = [] \<and>
   reconnectAttempts (onopen e p s) = 0 \<and>
   wire (onopen e p s) =
     wire s @ map (\<lambda>(i, m). frame_at e i m)
       (filter (\<lambda>im. \<not> thrown e s im)
          (zip [transmissions s..<transmissions s + length (messageQueue s)] (messageQueue s)))"
proof -
  define s2 where "s2 = startPingPong (s\<lparr>connected := True, reconnectAttempts := 0\<rparr>)"
  have c: "connected s2" and q: "messageQueue s2 = messageQueue s"
    and n: "transmissions s2 = transmissions s" and w: "wire s2 = wire s"
    and k: "thrown e s2 = thrown e s" and r: "reconnectAttempts s2 = 0"
    by (simp_all add: s2_def startPingPong_def thrown_def)
  show ?thesis
    unfolding onopen_def Let_def s2_def [symmetric]
    by (simp add: settle_keeps drain [OF c q n] k w r)
qed

text \<open>
  Claim C5, as the code has it. After any sequence of \<open>send\<close> calls on a service that is not
  connected (each returns false and queues its message), once the connection opens the socket
  receives, in the order of the calls and each once, the queued messages whose transmission
  does not throw; when no transmission throws it receives exactly the queued messages.
\<close>

theorem queued_sends_flushed_in_order:
  "\<not> connected s \<Longrightarrow>
   (let (s1, rs) = sends e ms s; (s2, p) = connect e url s1; s3 = onopen e p s2;
        q = messageQueue s @ ms; n = transmissions s; tries = zip [n..<n + length q] q
    in rs = replicate (length ms) False \<and> messageQueue s1 = q \<and> wire s1 = wire s \<and>
       messageQueue s3 = [] \<and>
       wire s3 = wire s @ map (\<lambda>(i, m). frame_at e i m)
                            (filter (\<lambda>im. \<not> thrown e s2 im) tries) \<and>
       ((\<forall>im \<in> set tries. \<not> thrown e s2 im) \<longrightarrow>
          wire s3 = wire s @ map (\<lambda>(i, m). frame_at e i m) tries))"
proof -
  assume d: "\<not> connected s"
  define s1 where "s1 = s\<lparr>messageQueue := messageQueue s @ ms\<rparr>"
  obtain s2 p where cn: "connect e url s1 = (s2, p)" by (cases "connect e url s1")
  have s2: "s2 = fst (connect e url s1)" using cn by simp
  have f: "messageQueue s2 = messageQueue s @ ms" "wire s2 = wire s"
    "transmissions s2 = transmissions s"
    by (simp_all add: s2 connect_keeps s1_def)
  have sn: "sends e ms s = (s1, replicate (length ms) False)"
    by (simp add: sends_disconnected [OF d] s1_def)
  have g: "messageQueue s1 = messageQueue s @ ms" "wire s1 = wire s"
    by (simp_all add: s1_def)
  show ?thesis
    using onopen_drains [of e p s2]
    by (simp add: sn cn f g Let_def)
qed


theorem queued_sends_flushed_in_order_witness:
  "\<not> connected constructor \<and>
   (let (s1, rs) = sends plain_env [threat ''1'', threat ''2''] constructor;
        (s2, p) = connect plain_env ''ws://localhost:8000/ws/updates'' s1;
        s3 = onopen plain_env p s2
    in rs = [False, False] \<and> messageQueue s1 = [threat ''1'', threat ''2''] \<and>
       messageQueue s3 = [] \<and>
       wire s3 = [frame_at plain_env 0 (threat ''1''), frame_at plain_env 1 (threat ''2'')])"
proof -
  have d: "\<not> connected constructor" by (simp add: constructor_def)
  have z: "[0..<2] = [0, Suc 0]" by (simp add: upt_conv_Cons)
  have f: "messageQueue constructor = []" "transmissions constructor = 0"
    "wire constructor = []"
    by (simp_all add: constructor_def)
  have t: "\<And>s i m. thrown plain_env s (i, m) = (socket s = None)"
    by (simp add: thrown_def plain_env_def)
  have k: "socket (fst (connect plain_env ''ws://localhost:8000/ws/updates''
             (constructor\<lparr>messageQueue := [threat ''1'', threat ''2'']\<rparr>))) \<noteq> None"
    by (simp add: connect_def plain_env_def Let_def constructor_def)
  show ?thesis
    using d k queued_sends_flushed_in_order [OF d, of plain_env "[threat ''1'', threat ''2'']"
        "''ws://localhost:8000/ws/updates''"]
    by (simp add: sends_disconnected [OF d] f z t Let_def split: prod.splits)
qed

text \<open>
  The claim as the spec words it fails: of two messages sent while disconnected, the socket
  receives only the second when the transmission of the first throws.
\<close>

theorem failed_transmission_not_received:
  "(let (s1, rs) = sends first_fails [threat ''1'', threat ''2''] constructor;
        (s2, p) = connect first_fails ''ws://localhost:8000/ws/updates'' s1;
        s3 = onopen first_fails p s2
    in rs = [False, False] \<and> messageQueue s3 = [] \<and>
       wire s3 = [[(''id'', JStr ''uuid-i''), (''timestamp'', JStr ''2024-01-01T00:00:00Z''),
                   (''type'', JStr ''threat''), (''data'', JObj [(''id'', JNum ''2'')])]])"
  by (simp add: sample_defs)

section \<open>Reconnection\<close>

text \<open>
  Only an abnormal close below the ceiling moves the counter and sets a retry timer. Nothing
  else that happens to the service does, a socket that opens apart: not the calls of the
  application or of a callback, not a frame, an error, a normal close or a timer.
\<close>

lemma backoff_connect: "backoff (fst (connect e url s)) = backoff s"
  by (simp add: backoff_def connect_def settle_def Let_def split: option.splits)

lemma backoff_send: "backoff (fst (send e m s)) = backoff s"
  by (simp add: backoff_def send_def Let_def)

lemma backoff_perform: "backoff (perform e c s) = backoff s"
  by (cases c)
     (simp_all add: backoff_connect backoff_send,
      simp_all add: backoff_def disconnect_def stopPingPong_def subscribe_def unsubscribe_def
        waitForConnection_def Let_def split: option.splits)

lemma backoff_performs: "backoff (foldl (\<lambda>s' c. perform e c s') s cs) = backoff s"
  by (induction cs arbitrary: s) (simp_all add: backoff_perform)

lemma backoff_upd [simp]:
  "backoff (s\<lparr>calls := x\<rparr>) = backoff s"
  "backoff (s\<lparr>console := y\<rparr>) = backoff s"
  "backoff (s\<lparr>snackbars := z\<rparr>) = backoff s"
  "backoff (s\<lparr>sounds := n\<rparr>) = backoff s"
  "backoff (s\<lparr>readyState := r\<rparr>) = backoff s"
  "backoff (s\<lparr>fired := f\<rparr>) = backoff s"
  by (simp_all add: backoff_def)

lemma backoff_forEach_loop:
  "backoff (state_of (forEach_loop e label payload a k n s)) = backoff s"
proof (induction n arbitrary: k s label)
  case 0
  then show ?case by simp
next
  case (Suc n)
  show ?case
    by (simp add: Let_def Suc.IH backoff_performs split: option.splits)
qed

lemma backoff_handleMessage: "backoff (state_of (handleMessage e message s)) = backoff s"
  by (simp add: handleMessage_def handleSync_def handleNotification_def forEach_callback_def
      backoff_forEach_loop Let_def split: option.splits)

lemma backoff_onmessage: "backoff (onmessage e frame s) = backoff s"
proof (cases frame)
  case None
  then show ?thesis by (simp add: onmessage_def)
next
  case (Some message)
  show ?thesis
    using backoff_handleMessage [of e message s]
    by (cases "handleMessage e message s") (simp_all add: onmessage_def Some)
qed

lemma backoff_timers:
  "backoff (fst (retry_timer e s)) = backoff s"
  "backoff (ping_timer e s) = backoff s"
  "backoff (onerror p s) = backoff s"
  by (simp_all add: retry_timer_def ping_timer_def onerror_def backoff_connect backoff_send
      split: prod.splits)
     (metis backoff_connect fst_conv, simp add: backoff_def settle_def)

lemma backoff_onclose:
  "backoff (onclose code s) =
     (if code \<noteq> 1000 \<and> reconnectAttempts s < maxReconnectAttempts s
      then (Suc (reconnectAttempts s), maxReconnectAttempts s,
            timeouts s @ [backoff_delay (Suc (reconnectAttempts s))])
      else backoff s)"
  by (simp add: backoff_def onclose_def handleReconnect_def stopPingPong_def Let_def)

lemma backoff_step:
  assumes "step e ev s = Some s'" and "\<not> is_open ev"
  shows "backoff s' =
     (if abnormal_close ev \<and> reconnectAttempts s < maxReconnectAttempts s
      then (Suc (reconnectAttempts s), maxReconnectAttempts s,
            timeouts s @ [backoff_delay (Suc (reconnectAttempts s))])
      else backoff s)"
proof (cases ev)
  case (SocketClose k code)
  have "backoff (s\<lparr>readyState := (readyState s)[k := Closed]\<rparr>) = backoff s"
    and "reconnectAttempts (s\<lparr>readyState := (readyState s)[k := Closed]\<rparr>) = reconnectAttempts s"
    and "maxReconnectAttempts (s\<lparr>readyState := (readyState s)[k := Closed]\<rparr>) = maxReconnectAttempts s"
    and "timeouts (s\<lparr>readyState := (readyState s)[k := Closed]\<rparr>) = timeouts s"
    by simp_all
  then show ?thesis
    using assms SocketClose by (auto simp: backoff_onclose split: if_splits)
qed (use assms in \<open>auto simp: backoff_perform backoff_onmessage backoff_timers split: if_splits\<close>)

lemma run_below_ceiling:
  "run e evs s = Some s' \<Longrightarrow> \<not> (\<exists>ev \<in> set evs. is_open ev) \<Longrightarrow>
   reconnectAttempts s + length (filter abnormal_close evs) \<le> maxReconnectAttempts s \<Longrightarrow>
   backoff s' =
     (reconnectAttempts s + length (filter abnormal_close evs), maxReconnectAttempts s,
      timeouts s @ map backoff_delay
        [Suc (reconnectAttempts s)..<
         Suc (reconnectAttempts s + length (filter abnormal_close evs))])"
proof (induction evs arbitrary: s)
  case Nil
  then show ?case by (simp add: backoff_def)
next
  case (Cons ev evs)
  from Cons.prems(1) obtain s1 where st: "step e ev s = Some s1" and rn: "run e evs s1 = Some s'"
    by (auto split: option.splits)
  have no: "\<not> is_open ev" "\<not> (\<exists>ev \<in> set evs. is_open ev)" using Cons.prems(2) by auto
  note b = backoff_step [OF st no(1)]
  show ?case
  proof (cases "abnormal_close ev")
    case True
    then have lt: "reconnectAttempts s < maxReconnectAttempts s" using Cons.prems(3) by simp
    have f: "reconnectAttempts s1 = Suc (reconnectAttempts s)"
      "maxReconnectAttempts s1 = maxReconnectAttempts s"
      "timeouts s1 = timeouts s @ [backoff_delay (Suc (reconnectAttempts s))]"
      using b True lt by (simp_all add: backoff_def)
    have u: "[Suc (reconnectAttempts s)..<
              Suc (Suc (reconnectAttempts s + length (filter abnormal_close evs)))] =
             Suc (reconnectAttempts s) #
             [Suc (Suc (reconnectAttempts s))..<
              Suc (Suc (reconnectAttempts s + length (filter abnormal_close evs)))]"
      by (subst upt_conv_Cons) simp_all
    have "reconnectAttempts s1 + length (filter abnormal_close evs) \<le> maxReconnectAttempts s1"
      using Cons.prems(3) True by (simp add: f)
    from Cons.IH [OF rn no(2) this] show ?thesis
      using True by (simp add: f u del: upt_Suc)
  next
    case False
    then have f: "reconnectAttempts s1 = reconnectAttempts s"
      "maxReconnectAttempts s1 = maxReconnectAttempts s" "timeouts s1 = timeouts s"
      using b by (simp_all add: backoff_def)
    have "reconnectAttempts s1 + length (filter abnormal_close evs) \<le> maxReconnectAttempts s1"
      using Cons.prems(3) False by (simp add: f)
    from Cons.IH [OF rn no(2) this] show ?thesis
      using False by (simp add: f)
  qed
qed

lemma run_at_ceiling:
  "run e evs s = Some s' \<Longrightarrow> \<not> (\<exists>ev \<in> set evs. is_open ev) \<Longrightarrow>
   maxReconnectAttempts s \<le> reconnectAttempts s \<Longrightarrow> backoff s' = backoff s"
proof (induction evs arbitrary: s)
  case Nil
  then show ?case by simp
next
  case (Cons ev evs)
  from Cons.prems(1) obtain s1 where st: "step e ev s = Some s1" and rn: "run e evs s1 = Some s'"
    by (auto split: option.splits)
  have no: "\<not> is_open ev" "\<not> (\<exists>ev \<in> set evs. is_open ev)" using Cons.prems(2) by auto
  have b: "backoff s1 = backoff s"
    using backoff_step [OF st no(1)] Cons.prems(3) by simp
  then have "maxReconnectAttempts s1 \<le> reconnectAttempts s1"
    using Cons.prems(3) by (simp add: backoff_def)
  from Cons.IH [OF rn no(2) this] b show ?case by simp
qed

lemma onopen_connected: "connected (onopen e p s)"
proof -
  define s2 where "s2 = startPingPong (s\<lparr>connected := True, reconnectAttempts := 0\<rparr>)"
  have c: "connected s2" by (simp add: s2_def startPingPong_def)
  show ?thesis
    unfolding onopen_def Let_def s2_def [symmetric]
    by (simp add: settle_def drain [OF c refl refl] c)
qed

lemma open_resets:
  "step e (SocketOpen k) s = Some s' \<Longrightarrow> reconnectAttempts s' = 0 \<and> connected s'"
  by (auto simp: onopen_drains onopen_connected split: if_splits)

lemmas run_defs = five_failures_def sixth_connecting_def plain_env_def constructor_def connect_def disconnect_def
  onclose_def handleReconnect_def stopPingPong_def retry_timer_def retry_url_def onerror_def
  settle_def ready_of_def close_socket_def backoff_delay_def Let_def

text \<open>
  Claim C9. In every run of the service that starts with the counter at 0 (a fresh service,
  or one whose connection has just opened) and in which no socket opens: when the run has
  \<open>N\<close> abnormal closes, \<open>1 \<le> N \<le> maxReconnectAttempts\<close>, the retry delays set in it are
  \<open>min (1000 * 2 ^ k) 30000\<close> for \<open>k = 1, ..., N\<close>, so the \<open>N\<close>-th is
  \<open>min (1000 * 2 ^ N) 30000\<close> milliseconds; the counter stands at \<open>N\<close>, and the next socket
  that opens sets it back to 0. In the sample run that follows, five sockets fail in a row: the
  retry opens the next socket there because the application has called \<open>disconnect\<close>
  after each close.
\<close>

theorem backoff_growth:
  "run e evs s = Some s' \<Longrightarrow> reconnectAttempts s = 0 \<Longrightarrow>
   \<not> (\<exists>ev \<in> set evs. is_open ev) \<Longrightarrow> length (filter abnormal_close evs) = N \<Longrightarrow>
   1 \<le> N \<Longrightarrow> N \<le> maxReconnectAttempts s \<Longrightarrow>
   timeouts s' = timeouts s @ map (\<lambda>k. min (1000 * 2 ^ k) 30000) [1..<Suc N] \<and>
   last (timeouts s') = min (1000 * 2 ^ N) 30000 \<and>
   reconnectAttempts s' = N \<and>
   (\<forall>k s''. step e (SocketOpen k) s' = Some s'' \<longrightarrow> reconnectAttempts s'' = 0)"
proof -
  assume a: "run e evs s = Some s'" "reconnectAttempts s = 0"
    "\<not> (\<exists>ev \<in> set evs. is_open ev)" "length (filter abnormal_close evs) = N"
    "1 \<le> N" "N \<le> maxReconnectAttempts s"
  have b: "backoff_delay = (\<lambda>k. min (1000 * 2 ^ k) 30000)"
    by (rule ext) (simp add: backoff_delay_def)
  have u: "[Suc 0..<Suc N] = [Suc 0..<N] @ [N]" using a(5) by simp
  have "backoff s' = (N, maxReconnectAttempts s, timeouts s @ map backoff_delay [Suc 0..<Suc N])"
    using run_below_ceiling [OF a(1) a(3)] a(2,4,6) by simp
  then show ?thesis
    using open_resets [of e _ s'] a(5) by (simp add: backoff_def b u)
qed

theorem backoff_growth_witness:
  "reconnectAttempts constructor = 0 \<and> length (filter abnormal_close five_failures) = 5 \<and>
   (1::nat) \<le> 5 \<and> 5 \<le> maxReconnectAttempts constructor \<and>
   (case run plain_env five_failures constructor of
      Some s \<Rightarrow> timeouts s = [2000, 4000, 8000, 16000, 30000] \<and> last (timeouts s) = 30000 \<and>
        reconnectAttempts s = 5 \<and> length (opened s) = 5
    | None \<Rightarrow> False)"
proof -
  obtain s where r: "run plain_env five_failures constructor = Some s" and o: "length (opened s) = 5"
    by (simp add: run_defs)
  have n: "\<not> (\<exists>ev \<in> set five_failures. is_open ev)" by (simp add: five_failures_def)
  have c: "length (filter abnormal_close five_failures) = 5" by (simp add: five_failures_def)
  have z: "reconnectAttempts constructor = 0" "maxReconnectAttempts constructor = 5"
    "timeouts constructor = []"
    by (simp_all add: constructor_def)
  have u: "[Suc 0..<6] = [1, 2, 3, 4, 5]" by (simp add: upt_conv_Cons)
  have "timeouts s = [2000, 4000, 8000, 16000, 30000] \<and> last (timeouts s) = 30000 \<and>
        reconnectAttempts s = 5"
    using backoff_growth [OF r z(1) n c] by (simp add: z u del: upt_Suc)
  then show ?thesis by (simp add: r o c z)
qed

text \<open>
  Claim C6, as the code has it. A run from a counter of 0 with \<open>maxReconnectAttempts\<close>
  abnormal closes and no open has set that many retries and brought the counter to the
  ceiling. However the run goes on from there without a socket opening, no retry timer is set
  any more, and every abnormal close shows the notice that asks for a reload of the page (an
  error notification that hides after 10000 ms). The service records nothing else: such a
  close leaves it exactly as a normal close would, console and notices apart, not connected
  and with its counter at the ceiling; and a socket that opens later sets the counter back to
  0, after which retries are set again.
\<close>

theorem reconnect_ceiling:
  "run e evs s = Some s1 \<Longrightarrow> reconnectAttempts s = 0 \<Longrightarrow>
   \<not> (\<exists>ev \<in> set evs. is_open ev) \<Longrightarrow>
   length (filter abnormal_close evs) = maxReconnectAttempts s \<Longrightarrow>
   run e later s1 = Some s2 \<Longrightarrow> \<not> (\<exists>ev \<in> set later. is_open ev) \<Longrightarrow>
   length (timeouts s1) = length (timeouts s) + maxReconnectAttempts s \<and>
   reconnectAttempts s2 = maxReconnectAttempts s2 \<and> timeouts s2 = timeouts s1 \<and>
   (\<forall>k code s3. code \<noteq> 1000 \<longrightarrow> step e (SocketClose k code) s2 = Some s3 \<longrightarrow>
      timeouts s3 = timeouts s2 \<and> reconnectAttempts s3 = reconnectAttempts s2 \<and>
      \<not> connected s3 \<and>
      snackbars s3 = snackbars s2 @
        [\<lparr>snack_text = JStr
            ''Disconnected from real-time updates. Please refresh the page to reconnect.'',
          snack_variant = VError, autoHideDuration = Some 10000, snack_action = None\<rparr>] \<and>
      (\<forall>s4. step e (SocketClose k 1000) s2 = Some s4 \<longrightarrow>
         s3 = s4\<lparr>console := console s3, snackbars := snackbars s3\<rparr>)) \<and>
   (\<forall>k s3. step e (SocketOpen k) s2 = Some s3 \<longrightarrow> reconnectAttempts s3 = 0)"
proof -
  assume a: "run e evs s = Some s1" "reconnectAttempts s = 0"
    "\<not> (\<exists>ev \<in> set evs. is_open ev)"
    "length (filter abnormal_close evs) = maxReconnectAttempts s"
    "run e later s1 = Some s2" "\<not> (\<exists>ev \<in> set later. is_open ev)"
  have b1: "backoff s1 = (maxReconnectAttempts s, maxReconnectAttempts s,
      timeouts s @ map backoff_delay [Suc 0..<Suc (maxReconnectAttempts s)])"
    using run_below_ceiling [OF a(1) a(3)] a(2,4) by simp
  then have c1: "maxReconnectAttempts s1 \<le> reconnectAttempts s1" by (simp add: backoff_def)
  have b2: "backoff s2 = backoff s1" by (rule run_at_ceiling [OF a(5) a(6) c1])
  have c2: "maxReconnectAttempts s2 \<le> reconnectAttempts s2"
    and e2: "reconnectAttempts s2 = maxReconnectAttempts s2"
    using b1 b2 by (simp_all add: backoff_def)
  have A: "length (timeouts s1) = length (timeouts s) + maxReconnectAttempts s"
    using b1 by (simp add: backoff_def)
  have B: "timeouts s2 = timeouts s1" using b2 by (simp add: backoff_def)
  have D: "\<forall>k code s3. code \<noteq> 1000 \<longrightarrow> step e (SocketClose k code) s2 = Some s3 \<longrightarrow>
      timeouts s3 = timeouts s2 \<and> reconnectAttempts s3 = reconnectAttempts s2 \<and>
      \<not> connected s3 \<and>
      snackbars s3 = snackbars s2 @
        [\<lparr>snack_text = JStr
            ''Disconnected from real-time updates. Please refresh the page to reconnect.'',
          snack_variant = VError, autoHideDuration = Some 10000, snack_action = None\<rparr>] \<and>
      (\<forall>s4. step e (SocketClose k 1000) s2 = Some s4 \<longrightarrow>
         s3 = s4\<lparr>console := console s3, snackbars := snackbars s3\<rparr>)"
  proof (intro allI impI)
    fix k code s3
    assume "code \<noteq> 1000" "step e (SocketClose k code) s2 = Some s3"
    then show "timeouts s3 = timeouts s2 \<and> reconnectAttempts s3 = reconnectAttempts s2 \<and>
      \<not> connected s3 \<and>
      snackbars s3 = snackbars s2 @
        [\<lparr>snack_text = JStr
            ''Disconnected from real-time updates. Please refresh the page to reconnect.'',
          snack_variant = VError, autoHideDuration = Some 10000, snack_action = None\<rparr>] \<and>
      (\<forall>s4. step e (SocketClose k 1000) s2 = Some s4 \<longrightarrow>
         s3 = s4\<lparr>console := console s3, snackbars := snackbars s3\<rparr>)"
      using c2
      by (auto simp: onclose_def handleReconnect_def stopPingPong_def Let_def split: if_splits)
  qed
  have E: "\<forall>k s3. step e (SocketOpen k) s2 = Some s3 \<longrightarrow> reconnectAttempts s3 = 0"
    using open_resets [of e _ s2] by blast
  from A e2 B D E show ?thesis by (intro conjI)
qed

lemma run_append:
  "run e (xs @ ys) s = (case run e xs s of None \<Rightarrow> None | Some s' \<Rightarrow> run e ys s')"
  by (induction xs arbitrary: s) (simp_all split: option.splits)

theorem reconnect_ceiling_witness:
  "reconnectAttempts constructor = 0 \<and>
   length (filter abnormal_close five_failures) = maxReconnectAttempts constructor \<and>
   (case run plain_env sixth_connecting constructor of
      Some s2 \<Rightarrow>
        reconnectAttempts s2 = 5 \<and> timeouts s2 = [2000, 4000, 8000, 16000, 30000] \<and>
        snackbars s2 = [] \<and>
        (case step plain_env (SocketClose 5 1006) s2 of
           Some s3 \<Rightarrow>
             timeouts s3 = [2000, 4000, 8000, 16000, 30000] \<and> reconnectAttempts s3 = 5 \<and>
             \<not> connected s3 \<and>
             snackbars s3 =
               [\<lparr>snack_text = JStr
                   ''Disconnected from real-time updates. Please refresh the page to reconnect.'',
                 snack_variant = VError, autoHideDuration = Some 10000, snack_action = None\<rparr>]
         | None \<Rightarrow> False)
    | None \<Rightarrow> False)"
proof -
  obtain s1 where r1: "run plain_env five_failures constructor = Some s1"
    and t1: "timeouts s1 = [2000, 4000, 8000, 16000, 30000]"
    by (simp add: run_defs)
  obtain s2 where r: "run plain_env sixth_connecting constructor = Some s2"
    and n2: "snackbars s2 = []" and m2: "maxReconnectAttempts s2 = 5"
    and k2: "ready_of s2 5 = Some Connecting"
    by (simp add: run_defs)
  have r2: "run plain_env [App CallDisconnect, RetryFire 4] s1 = Some s2"
    using r r1 by (simp add: sixth_connecting_def run_append del: run.simps)
  obtain s3 where st: "step plain_env (SocketClose 5 1006) s2 = Some s3"
    by (simp add: k2)
  have z: "reconnectAttempts constructor = 0" "maxReconnectAttempts constructor = 5"
    by (simp_all add: constructor_def)
  have c: "length (filter abnormal_close five_failures) = maxReconnectAttempts constructor"
    by (simp add: five_failures_def constructor_def)
  have n: "\<not> (\<exists>ev \<in> set five_failures. is_open ev)"
    "\<not> (\<exists>ev \<in> set [App CallDisconnect, RetryFire 4]. is_open ev)"
    by (simp_all add: five_failures_def)
  note th = reconnect_ceiling [OF r1 z(1) n(1) c r2 n(2)]
  have a: "reconnectAttempts s2 = 5" "timeouts s2 = [2000, 4000, 8000, 16000, 30000]"
    using th by (simp_all add: m2 t1)
  have "(1006::nat) \<noteq> 1000" by simp
  with th st have
    "timeouts s3 = timeouts s2 \<and> reconnectAttempts s3 = reconnectAttempts s2 \<and>
      \<not> connected s3 \<and>
      snackbars s3 = snackbars s2 @
        [\<lparr>snack_text = JStr
            ''Disconnected from real-time updates. Please refresh the page to reconnect.'',
          snack_variant = VError, autoHideDuration = Some 10000, snack_action = None\<rparr>]"
    by blast
  then show ?thesis
    by (simp add: r st a n2 z c del: step.simps)
qed

text \<open>
  The claim as the spec words it fails. With the sixth socket connecting and the counter at
  the ceiling, the abnormal close of that socket and a normal close of it leave the same
  service behind, apart from the console and the notice: no state tells the service that has
  given up from one that is disconnected. And when the application then reconnects and the
  new socket opens and closes abnormally, a sixth retry is set.
\<close>

theorem no_abandoned_state:
  "(case run plain_env sixth_connecting constructor of
      Some w \<Rightarrow>
        (case (step plain_env (SocketClose 5 1006) w, step plain_env (SocketClose 5 1000) w) of
           (Some a, Some b) \<Rightarrow>
             a = b\<lparr>console := console a, snackbars := snackbars a\<rparr> \<and>
             reconnectAttempts a = 5 \<and> length (snackbars a) = 1
         | other \<Rightarrow> False)
    | None \<Rightarrow> False) \<and>
   (case run plain_env
           (sixth_connecting @
            [SocketClose 5 1006, App CallDisconnect,
             App (CallConnect ''ws://localhost:8000/ws/updates''), SocketOpen 6,
             SocketClose 6 1006]) constructor of
      Some s \<Rightarrow>
        length (snackbars s) = 1 \<and> reconnectAttempts s = 1 \<and>
        timeouts s = [2000, 4000, 8000, 16000, 30000, 2000]
    | None \<Rightarrow> False)"
  by (simp add: run_defs onopen_def startPingPong_def pmq_stop)

text \<open>
  Claim C1 does not hold of the code. \<open>connect\<close> hands back the promise it holds whenever it
  holds one, settled or not, and only \<open>disconnect\<close> clears it. So after the first connection
  has opened and then closed abnormally, the retry's \<open>connect\<close> returns the first connection's
  resolved promise and opens no socket.
\<close>

theorem retry_returns_settled_promise:
  "(let (s1, p) = connect plain_env ''ws://localhost:8000/ws/updates'' constructor;
        s2 = onopen plain_env p s1;
        s3 = onclose 1006 s2;
        (s4, r) = retry_timer plain_env s3
    in opened s1 = [''ws://localhost:8000/ws/updates?token=abc''] \<and>
       connected s2 \<and> \<not> connected s3 \<and> reconnectAttempts s3 = 1 \<and> timeouts s3 = [2000] \<and>
       r = Some p \<and> promises s4 ! p = Resolved \<and>
       opened s4 = opened s1 \<and> socket s4 = socket s1 \<and> \<not> connected s4)"
  by (simp add: sample_defs onclose_def handleReconnect_def stopPingPong_def retry_timer_def
      retry_url_def backoff_delay_def)


lemma retry_reuses_promise:
  "connectionPromise s = Some p \<Longrightarrow> \<not> connected s \<Longrightarrow> retry_timer e s = (s, Some p)"
  by (simp add: retry_timer_def connect_def)

lemma promise_survives_close:
  "connectionPromise (onclose code s) = connectionPromise s"
  by (simp add: onclose_def handleReconnect_def stopPingPong_def Let_def)


section \<open>Dispatch\<close>

lemma calls_perform: "calls (perform e c s) = calls s"
  by (cases c)
     (simp_all add: connect_def settle_def send_def disconnect_def stopPingPong_def
        subscribe_def unsubscribe_def waitForConnection_def Let_def split: option.splits)

lemma calls_performs: "calls (foldl (\<lambda>s' c. perform e c s') s cs) = calls s"
  by (induction cs arbitrary: s) (simp_all add: calls_perform)

lemma arr_upd [simp]:
  "arr (s\<lparr>calls := x\<rparr>) a = arr s a"
  "arr (s\<lparr>console := y\<rparr>) a = arr s a"
  by (simp_all add: arr_def)

lemma arrays_connect: "arrays (fst (connect e url s)) = arrays s"
  by (simp add: connect_def settle_def Let_def split: option.splits)

lemma arr_others:
  "arr (fst (connect e url s)) a = arr s a"
  "arr (disconnect s) a = arr s a"
  "arr (fst (send e m s)) a = arr s a"
  "arr (waitForConnection w s) a = arr s a"
  by (simp_all add: arr_def arrays_connect disconnect_def stopPingPong_def send_def
      waitForConnection_def Let_def split: option.splits)

lemma arr_unsubscribe_other: "a' \<noteq> a \<Longrightarrow> arr (unsubscribe event a' callback s) a = arr s a"
  by (simp add: unsubscribe_def arr_def Let_def)

lemma arr_subscribe:
  "take (length cs) (arr s a) = cs \<Longrightarrow>
   take (length cs) (arr (fst (subscribe event callback s)) a) = cs"
proof (cases "subscribers s event")
  case None
  assume "take (length cs) (arr s a) = cs"
  then show ?thesis
    using None by (cases "a < length (arrays s)") (auto simp: arr_def subscribe_def Let_def nth_append)
next
  case (Some a')
  assume t: "take (length cs) (arr s a) = cs"
  then have "length (take (length cs) (arr s a)) = length cs" by simp
  then have "length cs \<le> length (arr s a)" by simp
  then show ?thesis
    using Some t by (cases "a' = a") (auto simp: arr_def subscribe_def split: if_splits)
qed

lemma arr_perform:
  assumes "leaves a c" and "take (length cs) (arr s a) = cs"
  shows "take (length cs) (arr (perform e c s) a) = cs"
  using assms by (cases c) (simp_all add: arr_others arr_unsubscribe_other arr_subscribe)

lemma arr_performs:
  "\<forall>c \<in> set cl. leaves a c \<Longrightarrow> take (length cs) (arr s a) = cs \<Longrightarrow>
   take (length cs) (arr (foldl (\<lambda>s' c. perform e c s') s cl) a) = cs"
  by (induction cl arbitrary: s) (simp_all add: arr_perform)

lemma forEach_loop_steady:
  assumes "\<forall>cb \<in> set cs. \<forall>i. \<forall>c \<in> set (callback_calls e cb payload i). leaves a c"
  shows "take (length cs) (arr s a) = cs \<Longrightarrow> k + n = length cs \<Longrightarrow>
         \<exists>s'. forEach_loop e (Some label) payload a k n s = Returns s' \<and>
              calls s' = calls s @ map (\<lambda>cb. (cb, payload)) (drop k cs)"
proof (induction n arbitrary: k s)
  case 0
  then show ?case by simp
next
  case (Suc n)
  have k: "k < length cs" using Suc.prems(2) by simp
  have "length (take (length cs) (arr s a)) = length cs"
    using Suc.prems(1) by simp
  then have le: "length cs \<le> length (arr s a)" by simp
  have c: "arr s a ! k = cs ! k"
    using Suc.prems(1) k by (metis nth_take)
  define s2 where "s2 = foldl (\<lambda>s' call. perform e call s')
     (s\<lparr>calls := calls s @ [(cs ! k, payload)]\<rparr>)
     (callback_calls e (cs ! k) payload (length (calls s)))"
  have st: "\<forall>c \<in> set (callback_calls e (cs ! k) payload (length (calls s))). leaves a c"
    using assms nth_mem [OF k] by blast
  have p2: "take (length cs) (arr s2 a) = cs"
    unfolding s2_def by (rule arr_performs [OF st]) (simp add: Suc.prems(1))
  have c2: "calls s2 = calls s @ [(cs ! k, payload)]"
    by (simp add: s2_def calls_performs)
  have d: "drop k cs = cs ! k # drop (Suc k) cs"
    using k by (simp add: Cons_nth_drop_Suc)
  have n: "Suc k + n = length cs" using Suc.prems(2) by simp
  show ?case
  proof (cases "callback_throws e (cs ! k) payload (length (calls s))")
    case True
    have "take (length cs) (arr (s2\<lparr>console := console s2 @ [ConsoleError label]\<rparr>) a) = cs"
      using p2 by simp
    from Suc.IH [OF this n] show ?thesis
      using k le True by (simp add: c Let_def s2_def [symmetric] c2 d)
  next
    case False
    from Suc.IH [OF p2 n] show ?thesis
      using k le False by (simp add: c Let_def s2_def [symmetric] c2 d)
  qed
qed

lemma forEach_callback_steady:
  assumes "steady e s key payload"
  shows "\<exists>s'. forEach_callback e (Some label) payload (get_subscribers s key) s = Returns s' \<and>
              calls s' = calls s @ map (\<lambda>cb. (cb, payload)) (callbacks_for s key)"
proof (cases "get_subscribers s key")
  case None
  then show ?thesis by (simp add: forEach_callback_def callbacks_for_def)
next
  case (Some a)
  have "\<forall>cb \<in> set (arr s a). \<forall>i. \<forall>c \<in> set (callback_calls e cb payload i). leaves a c"
    using assms Some by (simp add: steady_def)
  from forEach_loop_steady [OF this, of s 0 "length (arr s a)" label]
  show ?thesis by (simp add: forEach_callback_def callbacks_for_def Some)
qed

lemma to_str_primitive: "primitive v \<Longrightarrow> to_str v \<noteq> None"
  by (cases v) simp_all

lemma quiet_eq: "quiet s = quiet s0 \<Longrightarrow> s = s0\<lparr>console := console s\<rparr>"
proof -
  assume q: "quiet s = quiet s0"
  have "s = (quiet s)\<lparr>console := console s\<rparr>" by (simp add: quiet_def)
  also have "\<dots> = (quiet s0)\<lparr>console := console s\<rparr>" by (simp only: q)
  also have "\<dots> = s0\<lparr>console := console s\<rparr>" by (simp add: quiet_def)
  finally show ?thesis .
qed

lemma quiet_ex: "quiet s = quiet s0 \<Longrightarrow> \<exists>x. s = s0\<lparr>console := x\<rparr>"
  by (drule quiet_eq) (rule exI)

lemma quiet_upd [simp]: "quiet (s\<lparr>console := x\<rparr>) = quiet s"
  by (simp add: quiet_def)

lemma quiet_arr: "quiet s = quiet s0 \<Longrightarrow> arr s a = arr s0 a"
  by (drule quiet_ex) (auto simp: arr_def)

lemma quiet_connect: "quiet (fst (connect e url (s\<lparr>console := x\<rparr>))) = quiet (fst (connect e url s))"
  by (simp add: connect_def settle_def quiet_def Let_def split: option.splits)

lemma quiet_send: "quiet (fst (send e m (s\<lparr>console := x\<rparr>))) = quiet (fst (send e m s))"
  by (simp add: send_def quiet_def Let_def)

lemma quiet_perform_upd: "quiet (perform e c (s\<lparr>console := x\<rparr>)) = quiet (perform e c s)"
  by (cases c)
     (simp_all add: quiet_connect quiet_send,
      simp_all add: quiet_def disconnect_def stopPingPong_def subscribe_def unsubscribe_def
        waitForConnection_def arr_def Let_def split: option.splits)

lemma perform_throws [simp]: "perform (e\<lparr>callback_throws := t\<rparr>) c s = perform e c s"
  by (cases c) (simp_all add: connect_def send_def frame_at_def Let_def split: option.splits)

lemma quiet_perform:
  "quiet s = quiet s0 \<Longrightarrow> quiet (perform e c s) = quiet (perform e c s0)"
  by (drule quiet_ex) (auto simp: quiet_perform_upd)

lemma quiet_performs:
  "quiet s = quiet s0 \<Longrightarrow>
   quiet (foldl (\<lambda>s' c. perform e c s') s cl) = quiet (foldl (\<lambda>s' c. perform e c s') s0 cl)"
proof (induction cl arbitrary: s s0)
  case Nil
  then show ?case by simp
next
  case (Cons c cl)
  have "quiet (perform e c s) = quiet (perform e c s0)"
    by (rule quiet_perform [OF Cons.prems])
  from Cons.IH [OF this] show ?case by simp
qed

lemma quiet_calls_upd: "quiet s = quiet s0 \<Longrightarrow> quiet (s\<lparr>calls := x\<rparr>) = quiet (s0\<lparr>calls := x\<rparr>)"
  by (drule quiet_ex) (auto simp: quiet_def)


lemma forEach_loop_quiet:
  "quiet s = quiet s0 \<Longrightarrow>
   quiet_outcome (forEach_loop e (Some label) payload a k n s) =
   quiet_outcome (forEach_loop (e\<lparr>callback_throws := t\<rparr>) (Some label) payload a k n s0)"
proof (induction n arbitrary: k s s0)
  case 0
  then show ?case by (simp add: quiet_outcome_def)
next
  case (Suc n)
  have a: "arr s a = arr s0 a" by (rule quiet_arr [OF Suc.prems])
  show ?case
  proof (cases "k < length (arr s0 a)")
    case False
    then show ?thesis using Suc.IH [OF Suc.prems] by (simp add: a)
  next
    case True
    define c where "c = arr s0 a ! k"
    define s2 where "s2 = foldl (\<lambda>s' call. perform e call s')
       (s\<lparr>calls := calls s @ [(c, payload)]\<rparr>)
       (callback_calls e c payload (length (calls s0)))"
    define s2' where "s2' = foldl (\<lambda>s' call. perform e call s')
       (s0\<lparr>calls := calls s0 @ [(c, payload)]\<rparr>)
       (callback_calls e c payload (length (calls s0)))"
    have cs: "calls s = calls s0"
      using quiet_ex [OF Suc.prems] by auto
    have q1: "quiet (s\<lparr>calls := calls s @ [(c, payload)]\<rparr>) =
              quiet (s0\<lparr>calls := calls s0 @ [(c, payload)]\<rparr>)"
      unfolding cs by (rule quiet_calls_upd [OF Suc.prems])
    have q2: "quiet s2 = quiet s2'"
      unfolding s2_def s2'_def by (rule quiet_performs [OF q1])
    have q3: "quiet (s2\<lparr>console := x\<rparr>) = quiet (s2'\<lparr>console := y\<rparr>)" for x y
      using q2 by simp
    have q4: "quiet (s2\<lparr>console := x\<rparr>) = quiet s2'" "quiet s2 = quiet (s2'\<lparr>console := y\<rparr>)" for x y
      using q2 by simp_all
    have L: "forEach_loop e (Some label) payload a k (Suc n) s =
        (if callback_throws e c payload (length (calls s0))
         then forEach_loop e (Some label) payload a (Suc k) n
                (s2\<lparr>console := console s2 @ [ConsoleError label]\<rparr>)
         else forEach_loop e (Some label) payload a (Suc k) n s2)"
      using True by (simp add: a c_def s2_def Let_def cs)
    have R: "forEach_loop (e\<lparr>callback_throws := t\<rparr>) (Some label) payload a k (Suc n) s0 =
        (if t c payload (length (calls s0))
         then forEach_loop (e\<lparr>callback_throws := t\<rparr>) (Some label) payload a (Suc k) n
                (s2'\<lparr>console := console s2' @ [ConsoleError label]\<rparr>)
         else forEach_loop (e\<lparr>callback_throws := t\<rparr>) (Some label) payload a (Suc k) n s2')"
      using True by (simp add: c_def s2'_def Let_def)
    show ?thesis
      unfolding L R
      using Suc.IH [OF q3] Suc.IH [OF q4(1)] Suc.IH [OF q4(2)] Suc.IH [OF q2]
      by simp
  qed
qed

lemma quiet_get: "quiet s = quiet s0 \<Longrightarrow> get_subscribers s key = get_subscribers s0 key"
  by (drule quiet_ex) (auto simp: get_subscribers_def)

lemma forEach_callback_quiet:
  "quiet s = quiet s0 \<Longrightarrow>
   quiet_outcome (forEach_callback e (Some label) payload (get_subscribers s key) s) =
   quiet_outcome (forEach_callback (e\<lparr>callback_throws := t\<rparr>) (Some label) payload
     (get_subscribers s0 key) s0)"
proof -
  assume q: "quiet s = quiet s0"
  show ?thesis
  proof (cases "get_subscribers s0 key")
    case None
    then show ?thesis
      using q by (simp add: quiet_get [OF q] forEach_callback_def quiet_outcome_def)
  next
    case (Some a)
    show ?thesis
      using forEach_loop_quiet [OF q, of e label payload a 0 "length (arr s0 a)" t]
      by (simp add: quiet_get [OF q] forEach_callback_def Some quiet_arr [OF q])
  qed
qed

lemma quiet_outcome_simps [simp]:
  "quiet_outcome (Returns s) = Returns (quiet s)"
  "quiet_outcome (Throws s) = Throws (quiet s)"
  by (simp_all add: quiet_outcome_def)

lemma handleSync_quiet:
  assumes "quiet s = quiet s0"
  shows "quiet_outcome (handleSync e message s) =
         quiet_outcome (handleSync (e\<lparr>callback_throws := t\<rparr>) message s0)"
proof -
  obtain x where s: "s = s0\<lparr>console := x\<rparr>" using quiet_ex [OF assms] by blast
  have w: "quiet (s\<lparr>console := console s @ y\<rparr>) = quiet (s0\<lparr>console := console s0 @ y\<rparr>)" for y
    by (simp add: s)
  show ?thesis
    using assms w by (simp add: handleSync_def Let_def forEach_callback_quiet split: option.splits)
qed

lemma handleNotification_quiet:
  assumes "quiet s = quiet s0"
  shows "quiet_outcome (handleNotification message s) =
         quiet_outcome (handleNotification message s0)"
proof -
  obtain x where s: "s = s0\<lparr>console := x\<rparr>" using quiet_ex [OF assms] by blast
  show ?thesis
    by (simp add: s handleNotification_def Let_def quiet_def split: option.splits)
qed

lemma get_subscribers_primitive: "get_subscribers s key = Some a \<Longrightarrow> primitive key"
  by (simp add: get_subscribers_def split: if_splits)

lemma handleMessage_quiet:
  assumes "quiet s = quiet s0"
  shows "quiet_outcome (handleMessage e message s) =
         quiet_outcome (handleMessage (e\<lparr>callback_throws := t\<rparr>) message s0)"
proof (cases "read_prop message ''type''")
  case None
  then show ?thesis using assms by (simp add: handleMessage_def)
next
  case (Some ty)
  obtain x where s: "s = s0\<lparr>console := x\<rparr>" using quiet_ex [OF assms] by blast
  have w: "quiet (s\<lparr>console := console s @ y, snackbars := z\<rparr>) =
           quiet (s0\<lparr>console := console s0 @ y, snackbars := z\<rparr>)" for y z
    by (simp add: s quiet_def)
  have n: "snackbars s = snackbars s0" by (simp add: s)
  have g: "quiet_outcome (forEach_callback e
             (map_option (\<lambda>name. ''Error in WebSocket subscriber for '' @ name @ '':'') (to_str ty))
             (field message ''data'') (get_subscribers s ty) s) =
           quiet_outcome (forEach_callback (e\<lparr>callback_throws := t\<rparr>)
             (map_option (\<lambda>name. ''Error in WebSocket subscriber for '' @ name @ '':'') (to_str ty))
             (field message ''data'') (get_subscribers s0 ty) s0)"
  proof (cases "to_str ty")
    case None
    then have "\<not> primitive ty" using to_str_primitive by blast
    then have "get_subscribers s ty = None" "get_subscribers s0 ty = None"
      by (simp_all add: get_subscribers_def)
    then show ?thesis using assms by (simp add: forEach_callback_def)
  next
    case (Some name)
    then show ?thesis by (simp add: forEach_callback_quiet [OF assms])
  qed
  show ?thesis
    using Some assms w g
    by (simp add: handleMessage_def handleSync_quiet [OF assms]
        handleNotification_quiet [OF assms] n)
qed

lemma onmessage_quiet:
  assumes "quiet s = quiet s0"
  shows "quiet (onmessage e frame s) = quiet (onmessage (e\<lparr>callback_throws := t\<rparr>) frame s0)"
proof (cases frame)
  case None
  then show ?thesis using assms by (simp add: onmessage_def)
next
  case (Some message)
  show ?thesis
    using handleMessage_quiet [OF assms, of e message t]
    by (cases "handleMessage e message s";
        cases "handleMessage (e\<lparr>callback_throws := t\<rparr>) message s0")
       (simp_all add: onmessage_def Some)
qed

lemma receive_quiet:
  "quiet s = quiet s0 \<Longrightarrow>
   quiet (receive e frames s) = quiet (receive (e\<lparr>callback_throws := t\<rparr>) frames s0)"
proof (induction frames arbitrary: s s0)
  case Nil
  then show ?case by simp
next
  case (Cons f fs)
  show ?case using Cons.IH [OF onmessage_quiet [OF Cons.prems]] by simp
qed

lemmas watched_defs = watched_def subscribe_def callbacks_for_def get_subscribers_def arr_def
  threat_frame_def sync_frame_def error_frame_def first_throws_def leaving_def field_def
  js_or_def

lemma watched_facts:
  "calls watched = []" "console watched = []" "snackbars watched = []"
  "callbacks_for watched (JStr ''threat'') = [8, 9]"
  "callbacks_for watched (JStr ''error'') = [7]"
  "callbacks_for watched (JStr ''sync:threats'') = [5, 6]"
  "callbacks_for watched (JStr ''sync'') = [3]"
  "callbacks_for watched (JStr ''threats'') = [4]"
  "get_subscribers watched (JStr ''threat'') = Some 0"
  "get_subscribers watched (JStr ''sync:threats'') = Some 1"
  "arr watched 0 = [8, 9]" "arr watched 1 = [5, 6]"
  "messageQueue watched = []" "wire watched = []"
  by (simp_all add: watched_defs live_def sample_defs)

lemmas dispatch_defs = handleMessage_def handleSync_def forEach_callback_def unsubscribe_def
  Let_def

text \<open>
  Claim C3, as the code has it. An inbound envelope of type \<open>error\<close> goes to the built-in
  handler only: it is logged and shown as an error notification (the envelope's \<open>error\<close>
  field, or a default text), and \<open>handleMessage\<close> returns before the subscribers are looked
  up, so no callback is called, whatever is registered under the key \<open>error\<close>.
\<close>

theorem error_handled_built_in:
  "read_prop message ''type'' = Some (JStr ''error'') \<Longrightarrow>
   handleMessage e message s =
     Returns (s\<lparr>console := console s @ [ConsoleError ''WebSocket error:''],
                snackbars := snackbars s @
                  [\<lparr>snack_text = js_or (field message ''error'') (JStr ''An error occurred''),
                    snack_variant = VError, autoHideDuration = None, snack_action = None\<rparr>]\<rparr>) \<and>
   (\<forall>s'. handleMessage e message s = Returns s' \<longrightarrow>
      calls s' = calls s \<and> subscribers s' = subscribers s \<and> arrays s' = arrays s)"
  by (simp add: handleMessage_def)


theorem error_handled_built_in_witness:
  "read_prop error_frame ''type'' = Some (JStr ''error'') \<and>
   callbacks_for watched (JStr ''error'') = [7] \<and>
   (\<exists>s'. handleMessage plain_env error_frame watched = Returns s' \<and> calls s' = [] \<and>
      snackbars s' = [\<lparr>snack_text = JStr ''quota exceeded'', snack_variant = VError,
                        autoHideDuration = None, snack_action = None\<rparr>])"
proof -
  have t: "read_prop error_frame ''type'' = Some (JStr ''error'')"
    by (simp add: error_frame_def)
  have f: "js_or (field error_frame ''error'') (JStr ''An error occurred'') = JStr ''quota exceeded''"
    by (simp add: error_frame_def field_def js_or_def)
  have "handleMessage plain_env error_frame watched =
     Returns (watched\<lparr>console := [ConsoleError ''WebSocket error:''],
             snackbars := [\<lparr>snack_text = JStr ''quota exceeded'', snack_variant = VError,
                             autoHideDuration = None, snack_action = None\<rparr>]\<rparr>)"
    using error_handled_built_in [OF t, of plain_env watched]
    by (simp add: watched_facts f)
  then have "\<exists>s'. handleMessage plain_env error_frame watched = Returns s' \<and> calls s' = [] \<and>
      snackbars s' = [\<lparr>snack_text = JStr ''quota exceeded'', snack_variant = VError,
                        autoHideDuration = None, snack_action = None\<rparr>]"
    by (simp add: watched_facts)
  with t show ?thesis by (simp only: watched_facts simp_thms)
qed

text \<open>
  The claim as the spec words it fails: callback 7 is registered under \<open>error\<close> and an error
  envelope arrives; the notification is shown and no callback is called.
\<close>

theorem error_not_given_to_subscribers:
  "callbacks_for watched (JStr ''error'') = [7] \<and>
   (case handleMessage plain_env error_frame watched of
      Returns s' \<Rightarrow> calls s' = calls watched \<and> calls s' = [] \<and>
        snackbars s' = [\<lparr>snack_text = JStr ''quota exceeded'', snack_variant = VError,
                          autoHideDuration = None, snack_action = None\<rparr>]
    | Throws s' \<Rightarrow> False)"
  by (simp add: watched_facts) (simp add: handleMessage_def error_frame_def js_or_def field_def watched_facts)

lemma sync_key_distinct:
  "JStr (''sync:'' @ name) \<noteq> JStr ''sync'' \<and> (to_str c = Some name \<longrightarrow> JStr (''sync:'' @ name) \<noteq> c)"
  by (cases c) auto

lemma handleSync_known:
  assumes "field message ''data'' = JObj d"
    and "field (JObj d) ''operation'' \<in> {JStr ''create'', JStr ''update'', JStr ''delete''}"
  shows "handleSync e message s =
     (case to_str (field (JObj d) ''collection'') of
        None \<Rightarrow> Throws s
      | Some name \<Rightarrow>
          forEach_callback e (Some (''Error in sync subscriber for '' @ name @ '':''))
            (JObj [(''operation'', field (JObj d) ''operation''),
                   (''data'', field (JObj d) ''data'')])
            (get_subscribers s (JStr (''sync:'' @ name))) s)"
  using assms by (auto simp: handleSync_def js_or_def Let_def)

text \<open>
  Claim C7, as the code has it. Take an inbound envelope of type \<open>sync\<close> whose data is an
  object with operation create, update or delete. When its collection does not convert to a
  string, \<open>handleMessage\<close> throws before any callback is called. Otherwise the key is
  \<open>sync:\<close> followed by the collection, which is neither the key \<open>sync\<close> nor the collection
  itself, and, provided no callback of that key takes a callback off the key's array while
  the envelope is dispatched, exactly the callbacks registered under that key are called, each
  once and in the order of registration, with the payload made of the operation and the
  record.
\<close>

theorem sync_routing:
  assumes "read_prop message ''type'' = Some (JStr ''sync'')"
    and "field message ''data'' = JObj d"
    and "field (JObj d) ''operation'' \<in> {JStr ''create'', JStr ''update'', JStr ''delete''}"
  shows "(let c = field (JObj d) ''collection'';
              payload = JObj [(''operation'', field (JObj d) ''operation''),
                              (''data'', field (JObj d) ''data'')]
          in (to_str c = None \<longrightarrow> handleMessage e message s = Throws s) \<and>
             (\<forall>name. to_str c = Some name \<longrightarrow>
                JStr (''sync:'' @ name) \<noteq> JStr ''sync'' \<and> JStr (''sync:'' @ name) \<noteq> c \<and>
                (steady e s (JStr (''sync:'' @ name)) payload \<longrightarrow>
                   (\<exists>s'. handleMessage e message s = Returns s' \<and>
                      calls s' = calls s @
                        map (\<lambda>cb. (cb, payload)) (callbacks_for s (JStr (''sync:'' @ name)))))))"
proof -
  have h: "handleMessage e message s = handleSync e message s"
    using assms(1) by (simp add: handleMessage_def)
  show ?thesis
    unfolding Let_def h handleSync_known [OF assms(2,3)]
    using sync_key_distinct [of _ "field (JObj d) ''collection''"]
    by (auto dest: forEach_callback_steady)
qed


theorem sync_routing_witness:
  "read_prop (sync_frame (JStr ''threats'') (JStr ''update'')) ''type'' = Some (JStr ''sync'') \<and>
   to_str (JStr ''threats'') = Some ''threats'' \<and>
   steady first_throws watched (JStr ''sync:threats'')
     (JObj [(''operation'', JStr ''update''), (''data'', JObj [(''id'', JNum ''7'')])]) \<and>
   callbacks_for watched (JStr ''sync'') = [3] \<and>
   callbacks_for watched (JStr ''threats'') = [4] \<and>
   (\<exists>s'. handleMessage first_throws (sync_frame (JStr ''threats'') (JStr ''update'')) watched =
           Returns s' \<and>
      calls s' = [(5, JObj [(''operation'', JStr ''update''), (''data'', JObj [(''id'', JNum ''7'')])]),
                  (6, JObj [(''operation'', JStr ''update''), (''data'', JObj [(''id'', JNum ''7'')])])])"
proof -
  let ?d = "[(''collection'', JStr ''threats''), (''operation'', JStr ''update''),
             (''data'', JObj [(''id'', JNum ''7'')])]"
  let ?p = "JObj [(''operation'', JStr ''update''), (''data'', JObj [(''id'', JNum ''7'')])]"
  have t: "read_prop (sync_frame (JStr ''threats'') (JStr ''update'')) ''type'' = Some (JStr ''sync'')"
    by (simp add: sync_frame_def)
  have d: "field (sync_frame (JStr ''threats'') (JStr ''update'')) ''data'' = JObj ?d"
    by (simp add: sync_frame_def field_def)
  have o: "field (JObj ?d) ''operation'' \<in> {JStr ''create'', JStr ''update'', JStr ''delete''}"
    by (simp add: field_def)
  have f: "field (JObj ?d) ''collection'' = JStr ''threats''"
    "field (JObj ?d) ''operation'' = JStr ''update''"
    "field (JObj ?d) ''data'' = JObj [(''id'', JNum ''7'')]"
    by (simp_all add: field_def)
  have st: "steady first_throws watched (JStr ''sync:threats'') ?p"
    by (simp add: steady_def first_throws_def plain_env_def)
  have "\<exists>s'. handleMessage first_throws (sync_frame (JStr ''threats'') (JStr ''update'')) watched =
           Returns s' \<and> calls s' = [(5, ?p), (6, ?p)]"
    using sync_routing [OF t d o, of first_throws watched] st
    by (simp add: Let_def f watched_facts)
  with t st show ?thesis by (simp only: watched_facts to_str.simps simp_thms)
qed

text \<open>
  The claim as the spec words it fails: callback 5 unsubscribes itself when it is called, the
  array that the loop walks shrinks under it, and callback 6, registered under the key before
  and after, is not called.
\<close>

theorem unsubscribing_callback_hides_next:
  "callbacks_for watched (JStr ''sync:threats'') = [5, 6] \<and>
   (case handleMessage leaving (sync_frame (JStr ''threats'') (JStr ''update'')) watched of
      Returns s' \<Rightarrow>
        calls s' = [(5, JObj [(''operation'', JStr ''update''),
                              (''data'', JObj [(''id'', JNum ''7'')])])] \<and>
        callbacks_for s' (JStr ''sync:threats'') = [6]
    | Throws s' \<Rightarrow> False)"
  by (simp add: watched_facts)
     (simp add: dispatch_defs watched_defs live_def sample_defs)

text \<open>
  Claim C10, as the code has it. An inbound envelope of type \<open>sync\<close> whose operation is not
  create, update or delete (also when it has no data or no operation) calls no callback and
  leaves the subscriptions, the queue and the socket as they were. When the operation converts
  to a string, the warning \<open>Unknown sync operation\<close> with that string goes to the console.
  When it does not, \<open>handleMessage\<close> throws instead of warning, and the socket's message
  handler logs that as an error parsing the message.
\<close>

theorem unknown_sync_operation_dropped:
  assumes "read_prop message ''type'' = Some (JStr ''sync'')"
    and "operation = field (js_or (field message ''data'') (JObj [])) ''operation''"
    and "operation \<notin> {JStr ''create'', JStr ''update'', JStr ''delete''}"
  shows "(\<forall>name. to_str operation = Some name \<longrightarrow>
            handleMessage e message s =
              Returns (s\<lparr>console := console s @
                         [ConsoleWarn (''Unknown sync operation: '' @ name)]\<rparr>)) \<and>
         (to_str operation = None \<longrightarrow>
            handleMessage e message s = Throws s \<and>
            onmessage e (Some message) s =
              s\<lparr>console := console s @ [ConsoleError ''Error parsing WebSocket message:'']\<rparr>) \<and>
         calls (onmessage e (Some message) s) = calls s \<and>
         subscribers (onmessage e (Some message) s) = subscribers s \<and>
         arrays (onmessage e (Some message) s) = arrays s \<and>
         messageQueue (onmessage e (Some message) s) = messageQueue s \<and>
         wire (onmessage e (Some message) s) = wire s"
  using assms
  by (cases "to_str operation") (simp_all add: onmessage_def handleMessage_def handleSync_def Let_def)


theorem unknown_sync_operation_dropped_witness:
  "read_prop (sync_frame (JStr ''threats'') (JStr ''upsert'')) ''type'' = Some (JStr ''sync'') \<and>
   JStr ''upsert'' \<notin> {JStr ''create'', JStr ''update'', JStr ''delete''} \<and>
   to_str (JStr ''upsert'') = Some ''upsert'' \<and>
   handleMessage plain_env (sync_frame (JStr ''threats'') (JStr ''upsert'')) watched =
     Returns (watched\<lparr>console := [ConsoleWarn ''Unknown sync operation: upsert'']\<rparr>) \<and>
   calls (onmessage plain_env (Some (sync_frame (JStr ''threats'') (JStr ''upsert''))) watched) = []"
proof -
  have t: "read_prop (sync_frame (JStr ''threats'') (JStr ''upsert'')) ''type'' = Some (JStr ''sync'')"
    by (simp add: sync_frame_def)
  have o: "JStr ''upsert'' =
      field (js_or (field (sync_frame (JStr ''threats'') (JStr ''upsert'')) ''data'') (JObj []))
        ''operation''"
    by (simp add: sync_frame_def field_def js_or_def)
  have n: "JStr ''upsert'' \<notin> {JStr ''create'', JStr ''update'', JStr ''delete''}"
    by simp
  show ?thesis
    using t n unknown_sync_operation_dropped [OF t o n, of plain_env watched]
    by (simp add: watched_facts)
qed

text \<open>
  The claim as the spec words it fails: the operation is an object with a field
  \<open>toString\<close>, the warning's template literal throws, and what the console gets is the
  parse error of the message handler, not the warning.
\<close>

theorem unconvertible_operation_not_warned:
  "JObj [(''toString'', JNum ''1'')] \<notin> {JStr ''create'', JStr ''update'', JStr ''delete''} \<and>
   handleMessage plain_env
     (sync_frame (JStr ''threats'') (JObj [(''toString'', JNum ''1'')])) watched = Throws watched \<and>
   console (onmessage plain_env
     (Some (sync_frame (JStr ''threats'') (JObj [(''toString'', JNum ''1'')]))) watched) =
     [ConsoleError ''Error parsing WebSocket message:'']"
  by (simp add: onmessage_def handleMessage_def handleSync_def Let_def sync_frame_def field_def
      js_or_def watched_facts)

lemma generic_steady:
  assumes "read_prop message ''type'' = Some ty"
    and "ty \<notin> {JStr ''pong'', JStr ''error'', JStr ''notification'', JStr ''sync''}"
    and "steady e s ty (field message ''data'')"
  shows "\<exists>s'. handleMessage e message s = Returns s' \<and>
           calls s' = calls s @ map (\<lambda>c. (c, field message ''data'')) (callbacks_for s ty)"
proof (cases "get_subscribers s ty")
  case None
  then show ?thesis
    using assms(1,2) by (simp add: handleMessage_def forEach_callback_def callbacks_for_def)
next
  case (Some a)
  then have "primitive ty" by (rule get_subscribers_primitive)
  then obtain name where n: "to_str ty = Some name" using to_str_primitive by blast
  show ?thesis
    using assms(1,2) forEach_callback_steady [OF assms(3)]
    by (simp add: handleMessage_def n)
qed

lemma sync_steady:
  assumes "read_prop message ''type'' = Some (JStr ''sync'')"
    and "field message ''data'' = JObj d"
    and "field (JObj d) ''operation'' \<in> {JStr ''create'', JStr ''update'', JStr ''delete''}"
    and "to_str (field (JObj d) ''collection'') = Some name"
    and "steady e s (JStr (''sync:'' @ name))
           (JObj [(''operation'', field (JObj d) ''operation''), (''data'', field (JObj d) ''data'')])"
  shows "\<exists>s'. handleMessage e message s = Returns s' \<and>
           calls s' = calls s @
             map (\<lambda>c. (c, JObj [(''operation'', field (JObj d) ''operation''),
                                 (''data'', field (JObj d) ''data'')]))
               (callbacks_for s (JStr (''sync:'' @ name)))"
proof -
  have h: "handleMessage e message s = handleSync e message s"
    using assms(1) by (simp add: handleMessage_def)
  show ?thesis
    unfolding h handleSync_known [OF assms(2,3)]
    using forEach_callback_steady [OF assms(5)] by (simp add: assms(4))
qed

text \<open>
  Claim C8, as the code has it. What a callback throws is caught inside the loop, and the
  dispatch goes on as if the callback had returned: for one envelope, and for any stream of
  inbound frames, the outcome is the same whichever callbacks throw, up to what the console
  got. When moreover no callback of the key takes a callback off the key's array during the
  dispatch, every callback registered under the key is called, in the order of registration
  and with the same payload, for an envelope of an application-defined type as for a sync.
\<close>

theorem dispatch_isolation:
  "(read_prop message ''type'' = Some ty \<and>
    ty \<notin> {JStr ''pong'', JStr ''error'', JStr ''notification'', JStr ''sync''} \<and>
    steady e s ty (field message ''data'') \<longrightarrow>
      (\<exists>s'. handleMessage e message s = Returns s' \<and>
         calls s' = calls s @ map (\<lambda>c. (c, field message ''data'')) (callbacks_for s ty))) \<and>
   (read_prop message ''type'' = Some (JStr ''sync'') \<and> field message ''data'' = JObj d \<and>
    field (JObj d) ''operation'' \<in> {JStr ''create'', JStr ''update'', JStr ''delete''} \<and>
    to_str (field (JObj d) ''collection'') = Some name \<and>
    steady e s (JStr (''sync:'' @ name))
      (JObj [(''operation'', field (JObj d) ''operation''), (''data'', field (JObj d) ''data'')]) \<longrightarrow>
      (\<exists>s'. handleMessage e message s = Returns s' \<and>
         calls s' = calls s @
           map (\<lambda>c. (c, JObj [(''operation'', field (JObj d) ''operation''),
                               (''data'', field (JObj d) ''data'')]))
             (callbacks_for s (JStr (''sync:'' @ name))))) \<and>
   quiet_outcome (handleMessage e message s) =
     quiet_outcome (handleMessage (e\<lparr>callback_throws := t\<rparr>) message s) \<and>
   quiet (receive e frames s) = quiet (receive (e\<lparr>callback_throws := t\<rparr>) frames s) \<and>
   calls (receive e frames s) = calls (receive (e\<lparr>callback_throws := t\<rparr>) frames s)"
proof -
  have q: "quiet (receive e frames s) = quiet (receive (e\<lparr>callback_throws := t\<rparr>) frames s)"
    by (rule receive_quiet) simp
  have "calls (quiet (receive e frames s)) = calls (receive e frames s)"
    by (simp add: quiet_def)
  then have c: "calls (receive e frames s) = calls (receive (e\<lparr>callback_throws := t\<rparr>) frames s)"
    unfolding q by (simp add: quiet_def)
  have h: "quiet_outcome (handleMessage e message s) =
     quiet_outcome (handleMessage (e\<lparr>callback_throws := t\<rparr>) message s)"
    by (rule handleMessage_quiet) simp
  from generic_steady [of message ty e s] sync_steady [of message d name e s] h q c
  show ?thesis by blast
qed


theorem dispatch_isolation_witness:
  "read_prop threat_frame ''type'' = Some (JStr ''threat'') \<and>
   callbacks_for watched (JStr ''threat'') = [8, 9] \<and>
   callback_throws first_throws 8 (JObj [(''id'', JNum ''1'')]) 0 \<and>
   steady first_throws watched (JStr ''threat'') (JObj [(''id'', JNum ''1'')]) \<and>
   (\<exists>s'. handleMessage first_throws threat_frame watched = Returns s' \<and>
      calls s' = [(8, JObj [(''id'', JNum ''1'')]), (9, JObj [(''id'', JNum ''1'')])]) \<and>
   callback_throws first_throws 5
     (JObj [(''operation'', JStr ''delete''), (''data'', JObj [(''id'', JNum ''7'')])]) 0 \<and>
   (\<exists>s'. handleMessage first_throws (sync_frame (JStr ''threats'') (JStr ''delete'')) watched =
           Returns s' \<and>
      calls s' = [(5, JObj [(''operation'', JStr ''delete''), (''data'', JObj [(''id'', JNum ''7'')])]),
                  (6, JObj [(''operation'', JStr ''delete''), (''data'', JObj [(''id'', JNum ''7'')])])]) \<and>
   calls (receive first_throws
            [Some threat_frame, Some (sync_frame (JStr ''threats'') (JStr ''delete''))] watched) =
     [(8, JObj [(''id'', JNum ''1'')]), (9, JObj [(''id'', JNum ''1'')]),
      (5, JObj [(''operation'', JStr ''delete''), (''data'', JObj [(''id'', JNum ''7'')])]),
      (6, JObj [(''operation'', JStr ''delete''), (''data'', JObj [(''id'', JNum ''7'')])])]"
proof -
  let ?d = "[(''collection'', JStr ''threats''), (''operation'', JStr ''delete''),
             (''data'', JObj [(''id'', JNum ''7'')])]"
  let ?p = "JObj [(''operation'', JStr ''delete''), (''data'', JObj [(''id'', JNum ''7'')])]"
  let ?q = "JObj [(''id'', JNum ''1'')]"
  let ?sf = "sync_frame (JStr ''threats'') (JStr ''delete'')"
  have t: "read_prop threat_frame ''type'' = Some (JStr ''threat'')"
    by (simp add: threat_frame_def)
  have n: "JStr ''threat'' \<notin> {JStr ''pong'', JStr ''error'', JStr ''notification'', JStr ''sync''}"
    by simp
  have dt: "field threat_frame ''data'' = ?q"
    by (simp add: threat_frame_def field_def)
  have t2: "read_prop ?sf ''type'' = Some (JStr ''sync'')"
    by (simp add: sync_frame_def)
  have d: "field ?sf ''data'' = JObj ?d" by (simp add: sync_frame_def field_def)
  have f: "field (JObj ?d) ''collection'' = JStr ''threats''"
    "field (JObj ?d) ''operation'' = JStr ''delete''"
    "field (JObj ?d) ''data'' = JObj [(''id'', JNum ''7'')]"
    by (simp_all add: field_def)
  have st: "steady first_throws watched (JStr ''threat'') ?q"
    "steady first_throws watched (JStr ''sync:threats'') ?p"
    by (simp_all add: steady_def first_throws_def plain_env_def)
  have c: "callback_throws first_throws 8 ?q 0" "callback_throws first_throws 5 ?p 0"
    by (simp_all add: first_throws_def)
  have e: "first_throws\<lparr>callback_throws := (\<lambda>c payload i. False)\<rparr> = plain_env"
    by (simp add: first_throws_def plain_env_def)
  have a: "\<exists>s'. handleMessage first_throws threat_frame watched = Returns s' \<and>
      calls s' = [(8, ?q), (9, ?q)]"
    using dispatch_isolation [of threat_frame "JStr ''threat''" first_throws watched] t n st
    by (simp add: dt watched_facts)
  have b: "\<exists>s'. handleMessage first_throws ?sf watched = Returns s' \<and>
      calls s' = [(5, ?p), (6, ?p)]"
    using dispatch_isolation [of ?sf _ first_throws watched ?d "''threats''"] t2 d st
    by (simp add: f watched_facts)
  have "calls (receive first_throws [Some threat_frame, Some ?sf] watched) =
        calls (receive plain_env [Some threat_frame, Some ?sf] watched)"
    using dispatch_isolation [of _ _ first_throws watched _ _ "\<lambda>c payload i. False"
        "[Some threat_frame, Some ?sf]"]
    by (simp only: e)
  also have "\<dots> = [(8, ?q), (9, ?q), (5, ?p), (6, ?p)]"
    by (simp add: onmessage_def dispatch_defs watched_defs live_def sample_defs)
  finally have r: "calls (receive first_throws [Some threat_frame, Some ?sf] watched) =
        [(8, ?q), (9, ?q), (5, ?p), (6, ?p)]" .
  from t c st(1) a b r show ?thesis by (simp only: watched_facts simp_thms)
qed

text \<open>
  The claim as the spec words it fails: callback 8 unsubscribes itself and throws; the
  exception is caught, but the array has shrunk and callback 9, registered after it, is not
  called.
\<close>

theorem unsubscribing_thrower_hides_next:
  "callbacks_for watched (JStr ''threat'') = [8, 9] \<and>
   callback_throws leaving 8 (JObj [(''id'', JNum ''1'')]) 0 \<and>
   (case handleMessage leaving threat_frame watched of
      Returns s' \<Rightarrow>
        calls s' = [(8, JObj [(''id'', JNum ''1'')])] \<and>
        callbacks_for s' (JStr ''threat'') = [9]
    | Throws s' \<Rightarrow> False)"
  by (simp add: watched_facts)
     (simp add: dispatch_defs watched_defs live_def sample_defs)

section \<open>The model on sample inputs\<close>

text \<open>
  Conversions, subscriptions, the built-in handlers, a whole session and the retry, run on
  small inputs.
\<close>

lemma to_str_samples:
  "to_str JUndefined = Some ''undefined''"
  "to_str JNull = Some ''null''"
  "to_str (JBool True) = Some ''true''"
  "to_str (JNum ''7'') = Some ''7''"
  "to_str (JStr ''threats'') = Some ''threats''"
  "to_str (JArr [JNum ''1'', JNull, JStr ''a'', JArr [JBool False, JUndefined]]) = Some ''1,,a,false,''"
  "to_str (JObj [(''name'', JStr ''x'')]) = Some ''[object Object]''"
  "to_str (JObj [(''toString'', JNull)]) = None"
  "to_str (JArr [JStr ''a'', JObj [(''toString'', JNum ''1'')]]) = None"
  by simp_all

lemma subscribe_samples:
  "subscribeToSync (JNum ''7'') 1 constructor =
     Some (constructor\<lparr>subscribers := [JStr ''sync:7'' \<mapsto> 0], arrays := [[1]]\<rparr>,
           (JStr ''sync:7'', 0, 1))"
  "subscribeToSync (JObj [(''toString'', JNull)]) 1 constructor = None"
  "callbacks_for (unsubscribe (JStr ''threat'') 0 8 watched) (JStr ''threat'') = [9]"
  "subscribers (unsubscribe (JStr ''error'') 4 7 watched) (JStr ''error'') = None"
  "callbacks_for (fst (subscribeToAlerts 2 watched)) (JStr ''alert'') = [2]"
  by (simp_all add: subscribeToSync_def subscribeToAlerts_def unsubscribe_def watched_defs
      live_def sample_defs)

lemma notification_samples:
  "handleMessage plain_env
     (JObj [(''type'', JStr ''notification''),
            (''data'', JObj [(''level'', JStr ''error''), (''title'', JStr ''T''),
                             (''action'', JObj [(''label'', JStr ''Open'')])])]) constructor =
   Returns (constructor\<lparr>snackbars := [\<lparr>snack_text = JStr ''T'', snack_variant = VError,
     autoHideDuration = Some 10000, snack_action = Some (JStr ''Open'')\<rparr>], sounds := 1\<rparr>)"
  "handleMessage plain_env
     (JObj [(''type'', JStr ''notification''), (''data'', JObj [(''content'', JStr ''C'')])])
     constructor =
   Returns (constructor\<lparr>snackbars := [\<lparr>snack_text = JStr ''C'', snack_variant = VInfo,
     autoHideDuration = Some 5000, snack_action = None\<rparr>]\<rparr>)"
  "handleMessage plain_env
     (JObj [(''type'', JStr ''notification''),
            (''data'', JObj [(''level'', JObj [(''toString'', JNull)])])]) constructor =
   Throws constructor"
  "handleMessage plain_env (JObj [(''type'', JStr ''pong'')]) watched = Returns watched"
  "handleMessage plain_env JNull watched = Throws watched"
  "console (onmessage plain_env None constructor) =
     [ConsoleError ''Error parsing WebSocket message:'']"
  by (simp_all add: handleMessage_def handleNotification_def variantMap_def onmessage_def
      object_prototype_keys_def field_def js_or_def Let_def constructor_def)

lemma session_sample:
  "(case run plain_env
      [App (CallSend (threat ''1'')), App (CallConnect ''ws://localhost:8000/ws/updates''),
       App (CallWaitForConnection 3), SocketOpen 0, PingFire, App CallDisconnect,
       SocketClose 0 1000] constructor of
      Some s \<Rightarrow>
        map (\<lambda>frame. map_of frame ''type'') (wire s) = [Some (JStr ''threat''), Some (JStr ''ping'')] \<and>
        resolved_waiters s = [3] \<and> promises s = [Resolved] \<and> readyState s = [Closed] \<and>
        closed_by_client s = [0] \<and> \<not> connected s \<and> socket s = None \<and>
        connectionPromise s = None \<and> pingInterval s = None \<and> timeouts s = []
    | None \<Rightarrow> False)"
  "run plain_env [SocketOpen 0] constructor = None"
  "run plain_env [App (CallConnect ''ws://localhost:8000/ws/updates''), SocketClose 0 1006,
     SocketClose 0 1006] constructor = None"
  by (simp_all add: run_defs sample_defs ping_timer_def waitForConnection_def)

lemma retry_samples:
  "opened (fst (retry_timer plain_env constructor)) = [''ws://localhost:8000/ws/updates?token=abc'']"
  "opened (fst (retry_timer (plain_env\<lparr>WS_UPDATES_URL := [], token := None\<rparr>) constructor)) =
     [''ws://localhost:8000/ws/updates'']"
  "(case run plain_env
      [App (CallConnect ''ws://h/ws''), SocketOpen 0, SocketClose 0 1006, App CallDisconnect,
       RetryFire 0] constructor of
      Some s \<Rightarrow> opened s = [''ws://h/ws?token=abc'', ''ws://h/ws?token=abc&token=abc'']
    | None \<Rightarrow> False)"
  "retry_timer plain_env live = (live, None)"
  by (simp_all add: run_defs sample_defs live_def)

lemma growing_array_sample:
  "(case handleMessage
      (plain_env\<lparr>callback_calls := (\<lambda>c payload i. if c = 8 then [CallSubscribe (JStr ''threat'') 10]
                                                    else [])\<rparr>) threat_frame watched of
      Returns s' \<Rightarrow>
        calls s' = [(8, JObj [(''id'', JNum ''1'')]), (9, JObj [(''id'', JNum ''1'')])] \<and>
        callbacks_for s' (JStr ''threat'') = [8, 9, 10]
    | Throws s' \<Rightarrow> False)"
  by (simp add: dispatch_defs watched_defs live_def sample_defs)

end
